theory Spec2Isabelle
  imports Main "HOL-Library.AList" "HOL-Library.Sublist"
begin

section \<open>JSON values and the Python operations applied to them\<close>

text \<open>
  The values \<^verbatim>\<open>json.load\<close> produces. A Python \<^verbatim>\<open>dict\<close> is an association list
  in insertion order, read through \<^const>\<open>map_of\<close> (the first binding of a key is the
  visible one); \<^const>\<open>AList.update\<close> overwrites in place or appends, as item assignment
  does, and \<^const>\<open>AList.delete\<close> is \<^verbatim>\<open>del d[k]\<close>. The association lists without
  a repeated key are the Python dicts; loops over \<^verbatim>\<open>d.items()\<close> walk the list.
  Values are trees, as \<^verbatim>\<open>json.load\<close> builds them: no object is shared between two
  places. Numbers are the integers; JSON numbers with a fractional part are outside
  the model.
\<close>

datatype json =
    JNull
  | JBool bool
  | JNum int
  | JStr string
  | JArr "json list"
  | JObj "(string \<times> json) list"

type_synonym dict = "(string \<times> json) list"

text \<open>The exceptions the modelled code can raise.\<close>

datatype py_error = AttributeError | TypeError | KeyError | OSError

text \<open>\<^verbatim>\<open>k in d\<close> for a dict \<open>d\<close>.\<close>

definition has_key :: "'k \<Rightarrow> ('k \<times> 'v) list \<Rightarrow> bool" where
  "has_key k d = (case map_of d k of None \<Rightarrow> False | Some v \<Rightarrow> True)"

text \<open>\<^verbatim>\<open>d.get(k, default)\<close> for a dict \<open>d\<close>.\<close>

definition dict_get :: "dict \<Rightarrow> string \<Rightarrow> json \<Rightarrow> json" where
  "dict_get d k dflt = (case map_of d k of None \<Rightarrow> dflt | Some v \<Rightarrow> v)"

text \<open>\<^verbatim>\<open>isinstance(x, dict)\<close>.\<close>

fun isinstance_dict :: "json \<Rightarrow> bool" where
  "isinstance_dict (JObj m) = True"
| "isinstance_dict v = False"

text \<open>\<^verbatim>\<open>x.get(k, default)\<close> on any value: only a dict has the method.\<close>

fun py_get :: "json \<Rightarrow> string \<Rightarrow> json \<Rightarrow> py_error + json" where
  "py_get (JObj m) k dflt = Inr (dict_get m k dflt)"
| "py_get v k dflt = Inl AttributeError"

text \<open>\<^verbatim>\<open>x.copy()\<close>: dicts and lists have the method.\<close>

fun py_copy :: "json \<Rightarrow> py_error + json" where
  "py_copy (JObj m) = Inr (JObj m)"
| "py_copy (JArr xs) = Inr (JArr xs)"
| "py_copy v = Inl AttributeError"

text \<open>
  \<^verbatim>\<open>k in x\<close> for a string \<open>k\<close>: key membership in a dict, element membership in a
  list, substring test on a string; any other value is not iterable.
\<close>

fun py_in :: "string \<Rightarrow> json \<Rightarrow> py_error + bool" where
  "py_in k (JObj m) = Inr (has_key k m)"
| "py_in k (JArr xs) = Inr (JStr k \<in> set xs)"
| "py_in k (JStr s) = Inr (sublist k s)"
| "py_in k v = Inl TypeError"

text \<open>\<^verbatim>\<open>x[k] = v\<close> for a string \<open>k\<close>: only a dict accepts it.\<close>

fun py_setitem :: "json \<Rightarrow> string \<Rightarrow> json \<Rightarrow> py_error + json" where
  "py_setitem (JObj m) k v = Inr (JObj (AList.update k v m))"
| "py_setitem x k v = Inl TypeError"

text \<open>\<^verbatim>\<open>x[k]\<close> for a string \<open>k\<close>, used by the code only after \<^verbatim>\<open>k in x\<close>.\<close>

fun py_getitem :: "json \<Rightarrow> string \<Rightarrow> py_error + json" where
  "py_getitem (JObj m) k = (case map_of m k of None \<Rightarrow> Inl KeyError | Some v \<Rightarrow> Inr v)"
| "py_getitem x k = Inl TypeError"

text \<open>Truth value of a value in a condition.\<close>

fun py_truthy :: "json \<Rightarrow> bool" where
  "py_truthy JNull = False"
| "py_truthy (JBool b) = b"
| "py_truthy (JNum n) = (n \<noteq> 0)"
| "py_truthy (JStr s) = (s \<noteq> [])"
| "py_truthy (JArr xs) = (xs \<noteq> [])"
| "py_truthy (JObj m) = (m \<noteq> [])"

text \<open>\<^verbatim>\<open>x.keys()\<close> and \<^verbatim>\<open>len(x)\<close>; a dict counts its distinct keys.\<close>

definition dict_keys :: "dict \<Rightarrow> string list" where
  "dict_keys m = remdups (map fst m)"

fun py_keys :: "json \<Rightarrow> py_error + string list" where
  "py_keys (JObj m) = Inr (dict_keys m)"
| "py_keys v = Inl AttributeError"

fun py_len :: "json \<Rightarrow> py_error + nat" where
  "py_len (JObj m) = Inr (length (dict_keys m))"
| "py_len (JArr xs) = Inr (length xs)"
| "py_len (JStr s) = Inr (length s)"
| "py_len v = Inl TypeError"

text \<open>
  \<^verbatim>\<open>a == b\<close> on JSON values: dicts are equal when they have the same keys with equal
  values, whatever the insertion order, and \<^verbatim>\<open>True == 1\<close>, \<^verbatim>\<open>False == 0\<close>.
\<close>

primrec py_eq :: "json \<Rightarrow> json \<Rightarrow> bool"
  and py_eq_list :: "json list \<Rightarrow> json list \<Rightarrow> bool"
  and py_eq_items :: "(string \<times> json) list \<Rightarrow> dict \<Rightarrow> bool"
  and py_eq_item :: "string \<times> json \<Rightarrow> dict \<Rightarrow> bool"
where
  "py_eq JNull b = (case b of JNull \<Rightarrow> True | _ \<Rightarrow> False)"
| "py_eq (JBool x) b =
     (case b of JBool y \<Rightarrow> x = y | JNum n \<Rightarrow> n = (if x then 1 else 0) | _ \<Rightarrow> False)"
| "py_eq (JNum m) b =
     (case b of JNum n \<Rightarrow> m = n | JBool y \<Rightarrow> m = (if y then 1 else 0) | _ \<Rightarrow> False)"
| "py_eq (JStr s) b = (case b of JStr t \<Rightarrow> s = t | _ \<Rightarrow> False)"
| "py_eq (JArr xs) b = (case b of JArr ys \<Rightarrow> py_eq_list xs ys | _ \<Rightarrow> False)"
| "py_eq (JObj xs) b =
     (case b of
        JObj ys \<Rightarrow> set (map fst xs) = set (map fst ys) \<and> py_eq_items xs ys
      | _ \<Rightarrow> False)"
| "py_eq_list [] ys = (case ys of [] \<Rightarrow> True | _ \<Rightarrow> False)"
| "py_eq_list (x # xs) ys =
     (case ys of [] \<Rightarrow> False | y # ys' \<Rightarrow> py_eq x y \<and> py_eq_list xs ys')"
| "py_eq_items [] ys = True"
| "py_eq_items (kv # xs) ys = (py_eq_item kv ys \<and> py_eq_items xs ys)"
| "py_eq_item (k, v) ys = (case map_of ys k of None \<Rightarrow> False | Some w \<Rightarrow> py_eq v w)"

section \<open>Format handlers\<close>

text \<open>
  The five subclasses of \<^verbatim>\<open>ConfigFormatHandler\<close>. A configuration document
  (\<^verbatim>\<open>config_data: dict\<close>, \<^verbatim>\<open>existing_config: dict\<close>) is a \<^typ>\<open>dict\<close>; the MCP
  configuration handed to \<^verbatim>\<open>merge_mcp_config\<close> is any value, since the code tests it
  with \<^verbatim>\<open>isinstance\<close>.
\<close>

datatype handler =
    ClaudeDesktopHandler
  | StandardMCPHandler
  | VSCodeHandler
  | CursorHandler
  | LegacyMCPHandler

fun detect_format :: "handler \<Rightarrow> dict \<Rightarrow> bool" where
  "detect_format ClaudeDesktopHandler config_data = has_key ''mcpServers'' config_data"
| "detect_format StandardMCPHandler config_data = has_key ''mcp'' config_data"
| "detect_format VSCodeHandler config_data =
     (case map_of config_data ''mcp'' of
        Some (JObj mcp) \<Rightarrow> has_key ''servers'' mcp
      | _ \<Rightarrow> False)"
| "detect_format CursorHandler config_data =
     (has_key ''mcpServers'' config_data \<and>
      (case map_of config_data ''mcp'' of Some (JObj mcp) \<Rightarrow> True | _ \<Rightarrow> False))"
| "detect_format LegacyMCPHandler config_data = True"

fun extract_mcp_config :: "handler \<Rightarrow> dict \<Rightarrow> py_error + json" where
  "extract_mcp_config ClaudeDesktopHandler config_data =
     Inr (JObj [(''format'', JStr ''claude_desktop''),
                (''servers'', dict_get config_data ''mcpServers'' (JObj []))])"
| "extract_mcp_config StandardMCPHandler config_data =
     Inr (dict_get config_data ''mcp'' (JObj []))"
| "extract_mcp_config VSCodeHandler config_data =
     (let mcp_section = dict_get config_data ''mcp'' (JObj []) in
      case py_get mcp_section ''servers'' (JObj []) of
        Inl e \<Rightarrow> Inl e
      | Inr servers \<Rightarrow>
          (case py_get mcp_section ''inputs'' (JArr []) of
             Inl e \<Rightarrow> Inl e
           | Inr inputs \<Rightarrow>
               Inr (JObj [(''format'', JStr ''vscode''),
                          (''servers'', servers),
                          (''inputs'', inputs)])))"
| "extract_mcp_config CursorHandler config_data =
     (case map_of config_data ''mcp'' of
        Some (JObj mcp) \<Rightarrow> Inr (JObj mcp)
      | _ \<Rightarrow>
          Inr (JObj [(''format'', JStr ''cursor_legacy''),
                     (''servers'', dict_get config_data ''mcpServers'' (JObj []))]))"
| "extract_mcp_config LegacyMCPHandler config_data = Inr (JObj [])"

text \<open>
  The server map \<^verbatim>\<open>ClaudeDesktopHandler.merge_mcp_config\<close> stores: the \<^verbatim>\<open>if\<close> /
  \<^verbatim>\<open>elif\<close> / \<^verbatim>\<open>else\<close> chain on the shape of \<^verbatim>\<open>mcp_config\<close>.
\<close>

fun claude_servers :: "json \<Rightarrow> json" where
  "claude_servers (JObj m) =
     (if has_key ''servers'' m then dict_get m ''servers'' JNull
      else if has_key ''mcpServers'' m then dict_get m ''mcpServers'' JNull
      else JObj m)"
| "claude_servers v = v"

text \<open>
  The assignments \<^verbatim>\<open>VSCodeHandler.merge_mcp_config\<close> makes to
  \<^verbatim>\<open>updated_config['mcp']\<close>, once that is known to be a dict.
\<close>

fun vscode_section :: "dict \<Rightarrow> json \<Rightarrow> dict" where
  "vscode_section mcp (JObj m) =
     (if has_key ''servers'' m then
        (let mcp1 = AList.update ''servers'' (dict_get m ''servers'' JNull) mcp in
         if has_key ''inputs'' m
         then AList.update ''inputs'' (dict_get m ''inputs'' JNull) mcp1
         else mcp1)
      else if has_key ''mcpServers'' m
      then AList.update ''servers'' (dict_get m ''mcpServers'' JNull) mcp
      else AList.update ''servers'' (JObj m) mcp)"
| "vscode_section mcp v = AList.update ''servers'' v mcp"

definition ensure_inputs :: "dict \<Rightarrow> dict" where
  "ensure_inputs mcp =
     (if has_key ''inputs'' mcp then mcp else AList.update ''inputs'' (JArr []) mcp)"

fun merge_mcp_config :: "handler \<Rightarrow> dict \<Rightarrow> json \<Rightarrow> py_error + dict" where
  "merge_mcp_config ClaudeDesktopHandler existing_config mcp_config =
     Inr (AList.update ''mcpServers'' (claude_servers mcp_config) existing_config)"
| "merge_mcp_config StandardMCPHandler existing_config mcp_config =
     Inr (AList.update ''mcp'' mcp_config existing_config)"
| "merge_mcp_config VSCodeHandler existing_config mcp_config =
     (let updated_config =
            (if has_key ''mcp'' existing_config then existing_config
             else AList.update ''mcp'' (JObj []) existing_config)
      in case dict_get updated_config ''mcp'' JNull of
           JObj mcp \<Rightarrow>
             Inr (AList.update ''mcp''
                    (JObj (ensure_inputs (vscode_section mcp mcp_config))) updated_config)
         | _ \<Rightarrow> Inl TypeError)"
| "merge_mcp_config CursorHandler existing_config mcp_config =
     (let updated_config = AList.update ''mcp'' mcp_config existing_config in
      if has_key ''mcpServers'' updated_config
      then Inr (AList.delete ''mcpServers'' updated_config)
      else Inr updated_config)"
| "merge_mcp_config LegacyMCPHandler existing_config mcp_config =
     Inr (AList.update ''mcp'' mcp_config existing_config)"

text \<open>
  The top-level keys of the document that each handler's \<^verbatim>\<open>merge_mcp_config\<close> assigns
  or deletes: its MCP-relevant keys.
\<close>

definition mcp_keys :: "handler \<Rightarrow> string list" where
  "mcp_keys h =
     (case h of
        ClaudeDesktopHandler \<Rightarrow> [''mcpServers'']
      | CursorHandler \<Rightarrow> [''mcp'', ''mcpServers'']
      | _ \<Rightarrow> [''mcp''])"

fun get_format_name :: "handler \<Rightarrow> string" where
  "get_format_name ClaudeDesktopHandler = ''Claude Desktop (mcpServers)''"
| "get_format_name StandardMCPHandler = ''Standard MCP''"
| "get_format_name VSCodeHandler = ''VSCode (mcp.servers)''"
| "get_format_name CursorHandler = ''Cursor (mixed)''"
| "get_format_name LegacyMCPHandler = ''Legacy/Empty''"

section \<open>The format router\<close>

definition FORMAT_HANDLERS :: "handler list" where
  "FORMAT_HANDLERS =
     [ClaudeDesktopHandler, VSCodeHandler, CursorHandler, StandardMCPHandler, LegacyMCPHandler]"

text \<open>The loop of \<^verbatim>\<open>detect_config_format\<close>, with its final \<^verbatim>\<open>return LegacyMCPHandler()\<close>.\<close>

fun first_handler :: "handler list \<Rightarrow> dict \<Rightarrow> handler" where
  "first_handler [] config_data = LegacyMCPHandler"
| "first_handler (h # hs) config_data =
     (if detect_format h config_data then h else first_handler hs config_data)"

definition detect_config_format :: "dict \<Rightarrow> handler" where
  "detect_config_format config_data = first_handler FORMAT_HANDLERS config_data"

text \<open>\<^verbatim>\<open>APP_HANDLERS.get(app_name, StandardMCPHandler())\<close>.\<close>

definition APP_HANDLERS :: "(string \<times> handler) list" where
  "APP_HANDLERS =
     [(''Claude'', ClaudeDesktopHandler),
      (''VSCode'', VSCodeHandler),
      (''Cursor'', CursorHandler),
      (''Windsurf'', StandardMCPHandler),
      (''Roocode-VSCode'', StandardMCPHandler),
      (''Roocode-Windsurf'', StandardMCPHandler)]"

definition get_app_handler :: "string \<Rightarrow> handler" where
  "get_app_handler app_name =
     (case map_of APP_HANDLERS app_name of None \<Rightarrow> StandardMCPHandler | Some h \<Rightarrow> h)"

section \<open>Deep merge of a custom configuration\<close>

text \<open>
  The inner function \<^verbatim>\<open>deep_merge(d1, d2)\<close> of \<^verbatim>\<open>merge_configs\<close>: the loop over
  \<^verbatim>\<open>d2.items()\<close>, with \<open>d1\<close> updated at each step. The test is
  \<^verbatim>\<open>isinstance(value, dict) and key in d1\<close>; nothing asks whether \<^verbatim>\<open>d1[key]\<close> is a
  dict, so the recursive call may receive any value as \<open>d1\<close>.
\<close>

function deep_merge :: "json \<Rightarrow> dict \<Rightarrow> py_error + json" where
  "deep_merge d1 [] = Inr d1"
| "deep_merge d1 ((key, val) # rest) =
     (case val of
        JObj sub \<Rightarrow>
          (case py_in key d1 of
             Inl e \<Rightarrow> Inl e
           | Inr present \<Rightarrow>
               if present then
                 (case py_get d1 key (JObj []) of
                    Inl e \<Rightarrow> Inl e
                  | Inr old \<Rightarrow>
                      (case deep_merge old sub of
                         Inl e \<Rightarrow> Inl e
                       | Inr merged \<Rightarrow>
                           (case py_setitem d1 key merged of
                              Inl e \<Rightarrow> Inl e
                            | Inr d1' \<Rightarrow> deep_merge d1' rest)))
               else
                 (case py_setitem d1 key val of
                    Inl e \<Rightarrow> Inl e
                  | Inr d1' \<Rightarrow> deep_merge d1' rest))
      | _ \<Rightarrow>
          (case py_setitem d1 key val of
             Inl e \<Rightarrow> Inl e
           | Inr d1' \<Rightarrow> deep_merge d1' rest))"
  by pat_completeness auto
termination
  by (relation "measure (\<lambda>(d1, d2). size (JObj d2))") auto

text \<open>
  The binding \<^verbatim>\<open>deep_merge\<close> leaves for a key, from the base's binding and the
  overlay's: a dict in the overlay is merged into whatever the base holds.
\<close>

definition merged_binding :: "json option \<Rightarrow> json option \<Rightarrow> json option" where
  "merged_binding base_value overlay_value =
     (case overlay_value of
        None \<Rightarrow> base_value
      | Some (JObj sub) \<Rightarrow>
          (case base_value of
             None \<Rightarrow> Some (JObj sub)
           | Some old \<Rightarrow>
               (case deep_merge old sub of Inl e \<Rightarrow> None | Inr merged \<Rightarrow> Some merged))
      | Some v \<Rightarrow> Some v)"

text \<open>\<^verbatim>\<open>merge_configs\<close>: \<^verbatim>\<open>deep_merge(existing_config.copy(), new_config)\<close>.\<close>

definition merge_configs :: "json \<Rightarrow> json \<Rightarrow> py_error + json" where
  "merge_configs existing_config new_config =
     (case py_copy existing_config of
        Inl e \<Rightarrow> Inl e
      | Inr d1 \<Rightarrow>
          (case new_config of
             JObj d2 \<Rightarrow> deep_merge d1 d2
           | _ \<Rightarrow> Inl AttributeError))"

section \<open>The file system\<close>

text \<open>
  A path is its list of components. A regular file holds either text that
  \<^verbatim>\<open>json.load\<close> rejects or a JSON object (configuration documents are objects, as the
  handlers' annotation \<^verbatim>\<open>config_data: dict\<close> says). \<open>read_only\<close> are the paths that
  \<^verbatim>\<open>open(path, 'w')\<close> refuses. The byte size of a written file is not modelled.
\<close>

type_synonym path = "string list"

datatype file_content = Malformed | Json dict

record filesystem =
  files :: "path \<Rightarrow> file_content option"
  dirs :: "path set"
  read_only :: "path set"

text \<open>\<^verbatim>\<open>Path(s)\<close>: the components between slashes, without empty and \<^verbatim>\<open>.\<close> components.\<close>

fun split_slash :: "string \<Rightarrow> string \<Rightarrow> string list" where
  "split_slash cur [] = [cur]"
| "split_slash cur (c # cs) =
     (if c = CHR ''/'' then cur # split_slash [] cs else split_slash (cur @ [c]) cs)"

definition Path :: "string \<Rightarrow> path" where
  "Path s =
     (case s of
        [] \<Rightarrow> []
      | c # cs \<Rightarrow> (if c = CHR ''/'' then [''/''] else []) @
          filter (\<lambda>x. x \<noteq> [] \<and> x \<noteq> ''.'') (split_slash [] s))"

definition parent :: "path \<Rightarrow> path" where
  "parent p = (if p = [''/''] then p else butlast p)"

definition path_exists :: "filesystem \<Rightarrow> path \<Rightarrow> bool" where
  "path_exists fs p = (case files fs p of None \<Rightarrow> p \<in> dirs fs | Some f \<Rightarrow> True)"

text \<open>
  \<^verbatim>\<open>d.mkdir(parents=True, exist_ok=True)\<close>: every missing ancestor is created; a
  regular file in the way raises.
\<close>

definition mkdir_parents :: "filesystem \<Rightarrow> path \<Rightarrow> py_error + filesystem" where
  "mkdir_parents fs d =
     (if list_ex (\<lambda>a. case files fs a of None \<Rightarrow> False | Some f \<Rightarrow> True) (prefixes d)
      then Inl OSError
      else Inr (fs\<lparr>dirs := dirs fs \<union> set (prefixes d)\<rparr>))"

text \<open>
  \<^verbatim>\<open>open(p, 'w')\<close> followed by \<^verbatim>\<open>json.dump\<close>: fails on a directory, on a path that
  refuses writing and where the parent directory is missing.
\<close>

definition write_config :: "filesystem \<Rightarrow> path \<Rightarrow> dict \<Rightarrow> py_error + filesystem" where
  "write_config fs p doc =
     (if p \<in> dirs fs \<or> p \<in> read_only fs \<or> parent p \<notin> dirs fs
      then Inl OSError
      else Inr (fs\<lparr>files := (files fs)(p \<mapsto> Json doc)\<rparr>))"

text \<open>
  \<^verbatim>\<open>load_existing_config\<close>: \<open>Some []\<close> is the empty dict returned for an absent file,
  \<open>None\<close> is Python's \<^verbatim>\<open>None\<close>, returned when \<^verbatim>\<open>json.load\<close> or \<^verbatim>\<open>open\<close> raised
  (malformed text, or a directory at the path).
\<close>

definition load_existing_config :: "filesystem \<Rightarrow> path \<Rightarrow> dict option" where
  "load_existing_config fs config_path =
     (if path_exists fs config_path then
        (case files fs config_path of
           Some (Json d) \<Rightarrow> Some d
         | _ \<Rightarrow> None)
      else Some [])"

section \<open>The synchronizer\<close>

text \<open>
  The instance attributes the modelled methods use: \<open>CONFIG_FILES\<close> as
  \<^verbatim>\<open>_filter_installed_apps\<close> left it, and the canonical configuration \<open>config\<close>.
\<close>

record synchronizer =
  CONFIG_FILES :: "(string \<times> path) list"
  config :: json

definition DEFAULT_MCP_CONFIG :: json where
  "DEFAULT_MCP_CONFIG = JObj [(''servers'', JObj [])]"

fun ensure_directories :: "(string \<times> path) list \<Rightarrow> filesystem \<Rightarrow> py_error + filesystem" where
  "ensure_directories [] fs = Inr fs"
| "ensure_directories ((app_name, config_path) # rest) fs =
     (case mkdir_parents fs (parent config_path) of
        Inl e \<Rightarrow> Inl e
      | Inr fs' \<Rightarrow> ensure_directories rest fs')"

subsection \<open>Destructive operations\<close>

record report =
  app_name :: string
  existing_servers :: "string list"
  lost_servers :: "string list"
  remaining_servers :: "string list"

text \<open>
  The servers of an existing document: \<^verbatim>\<open>detect_config_format\<close>,
  \<^verbatim>\<open>extract_mcp_config\<close>, then \<^verbatim>\<open>.get('servers', {})\<close>.
\<close>

definition existing_servers_of :: "dict \<Rightarrow> py_error + json" where
  "existing_servers_of existing_config =
     (case extract_mcp_config (detect_config_format existing_config) existing_config of
        Inl e \<Rightarrow> Inl e
      | Inr existing_mcp_config \<Rightarrow> py_get existing_mcp_config ''servers'' (JObj []))"

text \<open>
  The test \<^verbatim>\<open>if existing_servers and len(existing_servers) > len(source_servers)\<close> and
  the report built under it. \<^verbatim>\<open>list(lost_servers)\<close> lists a set in no specified
  order; the model lists it in the order of the existing keys.
\<close>

definition removal_report :: "string \<Rightarrow> json \<Rightarrow> json \<Rightarrow> py_error + report option" where
  "removal_report app existing source =
     (if py_truthy existing then
        (case py_len existing of
           Inl e \<Rightarrow> Inl e
         | Inr n \<Rightarrow>
        (case py_len source of
           Inl e \<Rightarrow> Inl e
         | Inr m \<Rightarrow>
        if m < n then
          (case py_keys existing of
             Inl e \<Rightarrow> Inl e
           | Inr eks \<Rightarrow>
          (case py_keys source of
             Inl e \<Rightarrow> Inl e
           | Inr sks \<Rightarrow>
               (let lost = filter (\<lambda>k. k \<notin> set sks) eks in
                if lost \<noteq> [] then
                  Inr (Some \<lparr>app_name = app, existing_servers = eks,
                             lost_servers = lost, remaining_servers = sks\<rparr>)
                else Inr None)))
        else Inr None))
      else Inr None)"

fun check_targets :: "json \<Rightarrow> filesystem \<Rightarrow> (string \<times> path) list \<Rightarrow> py_error + report list" where
  "check_targets source fs [] = Inr []"
| "check_targets source fs ((app, config_path) # rest) =
     (if \<not> path_exists fs config_path then check_targets source fs rest
      else
        (case load_existing_config fs config_path of
           None \<Rightarrow> check_targets source fs rest
         | Some existing_config \<Rightarrow>
        (case existing_servers_of existing_config of
           Inl e \<Rightarrow> Inl e
         | Inr existing \<Rightarrow>
        (case removal_report app existing source of
           Inl e \<Rightarrow> Inl e
         | Inr r \<Rightarrow>
        (case check_targets source fs rest of
           Inl e \<Rightarrow> Inl e
         | Inr rs \<Rightarrow> Inr (case r of None \<Rightarrow> rs | Some x \<Rightarrow> x # rs))))))"

definition check_destructive_operations :: "synchronizer \<Rightarrow> filesystem \<Rightarrow> py_error + report list" where
  "check_destructive_operations sync fs =
     (case py_get (config sync) ''servers'' (JObj []) of
        Inl e \<Rightarrow> Inl e
      | Inr source_servers \<Rightarrow> check_targets source_servers fs (CONFIG_FILES sync))"

subsection \<open>Writing the targets\<close>

datatype action = Created | Updated | Skipped | Failed | Cancelled

datatype failure = ParseFailure | Raised py_error

record sync_result =
  success :: bool
  action :: action
  result_path :: "path option"
  error :: "failure option"
  reason :: "string option"
  format_name :: "string option"

definition cancelled_result :: sync_result where
  "cancelled_result =
     \<lparr>success = False, action = Cancelled, result_path = None, error = None,
      reason = Some ''user_cancelled'', format_name = None\<rparr>"

definition skipped_result :: "path \<Rightarrow> sync_result" where
  "skipped_result p =
     \<lparr>success = False, action = Skipped, result_path = Some p, error = Some ParseFailure,
      reason = None, format_name = None\<rparr>"

definition failed_result :: "path \<Rightarrow> py_error \<Rightarrow> sync_result" where
  "failed_result p e =
     \<lparr>success = False, action = Failed, result_path = Some p, error = Some (Raised e),
      reason = None, format_name = None\<rparr>"

definition written_result :: "path \<Rightarrow> bool \<Rightarrow> handler \<Rightarrow> sync_result" where
  "written_result p file_existed h =
     \<lparr>success = True, action = (if file_existed then Updated else Created),
      result_path = Some p, error = None, reason = None,
      format_name = Some (get_format_name h)\<rparr>"

text \<open>The body of the loop of \<^verbatim>\<open>update_configs\<close>, with its \<^verbatim>\<open>try\<close> / \<^verbatim>\<open>except\<close>.\<close>

definition update_target :: "json \<Rightarrow> filesystem \<Rightarrow> string \<Rightarrow> path \<Rightarrow> sync_result \<times> filesystem" where
  "update_target cfg fs app config_path =
     (case load_existing_config fs config_path of
        None \<Rightarrow> (skipped_result config_path, fs)
      | Some existing_config \<Rightarrow>
          (let file_existed = path_exists fs config_path;
               h = get_app_handler app
           in case merge_mcp_config h existing_config cfg of
                Inl e \<Rightarrow> (failed_result config_path e, fs)
              | Inr updated_config \<Rightarrow>
                  (case write_config fs config_path updated_config of
                     Inl e \<Rightarrow> (failed_result config_path e, fs)
                   | Inr fs' \<Rightarrow> (written_result config_path file_existed h, fs'))))"

fun update_loop ::
  "json \<Rightarrow> (string \<times> path) list \<Rightarrow> (string \<times> sync_result) list \<Rightarrow> filesystem \<Rightarrow>
   (string \<times> sync_result) list \<times> filesystem" where
  "update_loop cfg [] results fs = (results, fs)"
| "update_loop cfg ((app, config_path) # rest) results fs =
     (case update_target cfg fs app config_path of
        (r, fs') \<Rightarrow> update_loop cfg rest (AList.update app r results) fs')"

text \<open>
  \<^verbatim>\<open>update_configs(custom_config, force)\<close>. \<open>confirm\<close> is the operator's answer in
  \<^verbatim>\<open>prompt_user_confirmation\<close>; \<^verbatim>\<open>custom_config=None\<close> is \<^const>\<open>JNull\<close>. An uncaught
  exception ends the call with \<open>Inl\<close>.
\<close>

definition update_configs ::
  "(report list \<Rightarrow> bool) \<Rightarrow> synchronizer \<Rightarrow> filesystem \<Rightarrow> json \<Rightarrow> bool \<Rightarrow>
   py_error + ((string \<times> sync_result) list \<times> synchronizer \<times> filesystem)" where
  "update_configs confirm sync fs custom_config force =
     (case ensure_directories (CONFIG_FILES sync) fs of
        Inl e \<Rightarrow> Inl e
      | Inr fs1 \<Rightarrow>
     (case (if py_truthy custom_config then merge_configs (config sync) custom_config
            else Inr (config sync)) of
        Inl e \<Rightarrow> Inl e
      | Inr cfg \<Rightarrow>
     (let sync1 = sync\<lparr>config := cfg\<rparr> in
      case check_destructive_operations sync1 fs1 of
        Inl e \<Rightarrow> Inl e
      | Inr destructive_apps \<Rightarrow>
          if destructive_apps \<noteq> [] \<and> \<not> force \<and> \<not> confirm destructive_apps then
            Inr (map (\<lambda>(app, config_path). (app, cancelled_result)) (CONFIG_FILES sync1),
                 sync1, fs1)
          else
            (case update_loop cfg (CONFIG_FILES sync1) [] fs1 of
               (results, fs2) \<Rightarrow> Inr (results, sync1, fs2)))))"

subsection \<open>Validation\<close>

record validation_result =
  in_sync :: bool
  validation_reason :: "string option"
  mismatched_keys :: "string list"
  validation_format :: "string option"

text \<open>
  The nested function \<^verbatim>\<open>check_nested_dict(ref_dict, app_dict, path)\<close>; it returns the
  keys it appended to \<^verbatim>\<open>mismatched_keys\<close> (\<^verbatim>\<open>is_in_sync\<close> is cleared exactly when it
  appends one).
\<close>

function check_nested_dict :: "dict \<Rightarrow> json \<Rightarrow> string \<Rightarrow> py_error + string list" where
  "check_nested_dict [] app_dict pth = Inr []"
| "check_nested_dict ((key, ref_value) # rest) app_dict pth =
     (if key = ''format'' then check_nested_dict rest app_dict pth
      else
        (case py_in key app_dict of
           Inl e \<Rightarrow> Inl e
         | Inr present \<Rightarrow>
             if \<not> present then
               (case check_nested_dict rest app_dict pth of
                  Inl e \<Rightarrow> Inl e
                | Inr ms \<Rightarrow> Inr ((pth @ key @ '' (missing)'') # ms))
             else
               (case py_getitem app_dict key of
                  Inl e \<Rightarrow> Inl e
                | Inr app_value \<Rightarrow>
                    (case ref_value of
                       JObj ref_sub \<Rightarrow>
                         if isinstance_dict app_value then
                           (case check_nested_dict ref_sub app_value (pth @ key @ ''.'') of
                              Inl e \<Rightarrow> Inl e
                            | Inr ms1 \<Rightarrow>
                                (case check_nested_dict rest app_dict pth of
                                   Inl e \<Rightarrow> Inl e
                                 | Inr ms2 \<Rightarrow> Inr (ms1 @ ms2)))
                         else if \<not> py_eq ref_value app_value then
                           (case check_nested_dict rest app_dict pth of
                              Inl e \<Rightarrow> Inl e
                            | Inr ms \<Rightarrow> Inr ((pth @ key @ '' (value mismatch)'') # ms))
                         else check_nested_dict rest app_dict pth
                     | _ \<Rightarrow>
                         if \<not> py_eq ref_value app_value then
                           (case check_nested_dict rest app_dict pth of
                              Inl e \<Rightarrow> Inl e
                            | Inr ms \<Rightarrow> Inr ((pth @ key @ '' (value mismatch)'') # ms))
                         else check_nested_dict rest app_dict pth))))"
  by pat_completeness auto
termination
  by (relation "measure (\<lambda>(r, a, p). size (JObj r))") auto

text \<open>
  \<^verbatim>\<open>c.get('servers', {}) if isinstance(c, dict) and 'servers' in c else {}\<close>.
\<close>

definition servers_or_empty :: "json \<Rightarrow> json" where
  "servers_or_empty c =
     (case c of
        JObj m \<Rightarrow> (if has_key ''servers'' m then dict_get m ''servers'' (JObj []) else JObj [])
      | _ \<Rightarrow> JObj [])"

definition compared_result :: "handler \<Rightarrow> string list \<Rightarrow> validation_result" where
  "compared_result h mismatched =
     (if mismatched \<noteq> [] then
        \<lparr>in_sync = False, validation_reason = Some ''mismatch'', mismatched_keys = mismatched,
         validation_format = Some (get_format_name h)\<rparr>
      else
        \<lparr>in_sync = True, validation_reason = None, mismatched_keys = [],
         validation_format = Some (get_format_name h)\<rparr>)"

text \<open>The body of the loop of \<^verbatim>\<open>validate_configs\<close>.\<close>

definition validate_target :: "json \<Rightarrow> filesystem \<Rightarrow> path \<Rightarrow> py_error + validation_result" where
  "validate_target reference_config fs config_path =
     (if \<not> path_exists fs config_path then
        Inr \<lparr>in_sync = False, validation_reason = Some ''missing'', mismatched_keys = [],
             validation_format = None\<rparr>
      else
        (case load_existing_config fs config_path of
           None \<Rightarrow>
             Inr \<lparr>in_sync = False, validation_reason = Some ''parse_error'',
                  mismatched_keys = [], validation_format = None\<rparr>
         | Some cfg \<Rightarrow>
             (let h = detect_config_format cfg in
              case extract_mcp_config h cfg of
                Inl e \<Rightarrow> Inl e
              | Inr mcp_config \<Rightarrow>
                  if h = ClaudeDesktopHandler then
                    (let ref_servers = servers_or_empty reference_config;
                         app_servers = servers_or_empty mcp_config
                     in if \<not> py_truthy ref_servers \<and> py_truthy reference_config then
                          Inr \<lparr>in_sync = True,
                               validation_reason = Some ''format_mismatch_skip'',
                               mismatched_keys = [], validation_format = None\<rparr>
                        else
                          Inr (compared_result h
                                 (if py_eq app_servers ref_servers then []
                                  else [''servers (content mismatch)''])))
                  else
                    (case (case reference_config of
                             JObj r \<Rightarrow> check_nested_dict r mcp_config []
                           | _ \<Rightarrow> Inl AttributeError) of
                       Inl e \<Rightarrow> Inl e
                     | Inr mismatched \<Rightarrow> Inr (compared_result h mismatched)))))"

fun validate_loop ::
  "json \<Rightarrow> filesystem \<Rightarrow> (string \<times> path) list \<Rightarrow> bool \<Rightarrow> (string \<times> validation_result) list \<Rightarrow>
   py_error + (bool \<times> (string \<times> validation_result) list)" where
  "validate_loop reference_config fs [] all_in_sync results = Inr (all_in_sync, results)"
| "validate_loop reference_config fs ((app, config_path) # rest) all_in_sync results =
     (case validate_target reference_config fs config_path of
        Inl e \<Rightarrow> Inl e
      | Inr v \<Rightarrow>
          validate_loop reference_config fs rest (all_in_sync \<and> in_sync v)
            (AList.update app v results))"

text \<open>\<^verbatim>\<open>validate_configs(reference_config)\<close>; \<^verbatim>\<open>None\<close> is \<^const>\<open>JNull\<close>.\<close>

definition validate_configs ::
  "synchronizer \<Rightarrow> filesystem \<Rightarrow> json \<Rightarrow> py_error + (bool \<times> (string \<times> validation_result) list)" where
  "validate_configs sync fs reference_config =
     validate_loop (if reference_config = JNull then config sync else reference_config)
       fs (CONFIG_FILES sync) True []"

text \<open>
  \<^verbatim>\<open>update_configs(force=force)\<close> followed by \<^verbatim>\<open>validate_configs()\<close>, as
  \<^verbatim>\<open>sync_from_file\<close> runs them: the \<^verbatim>\<open>success\<close> flag of every sync result and the
  \<^verbatim>\<open>in_sync\<close> flag of every validation result.
\<close>

definition sync_then_validate ::
  "(report list \<Rightarrow> bool) \<Rightarrow> synchronizer \<Rightarrow> filesystem \<Rightarrow> bool \<Rightarrow>
   py_error + ((string \<times> bool) list \<times> (string \<times> bool) list)" where
  "sync_then_validate confirm sync fs force =
     (case update_configs confirm sync fs JNull force of
        Inl e \<Rightarrow> Inl e
      | Inr (results, sync', fs') \<Rightarrow>
          (case validate_configs sync' fs' JNull of
             Inl e \<Rightarrow> Inl e
           | Inr (all_in_sync, vs) \<Rightarrow>
               Inr (map (\<lambda>(a, r). (a, success r)) results,
                    map (\<lambda>(a, v). (a, in_sync v)) vs)))"

subsection \<open>Synchronising from a source\<close>

datatype status = SUCCESS | PARTIAL_SUCCESS | FAILED

text \<open>The overall status \<^verbatim>\<open>print_report\<close> computes and returns.\<close>

definition overall_status ::
  "(string \<times> sync_result) list \<Rightarrow> (string \<times> validation_result) list \<Rightarrow> status" where
  "overall_status sync_results validation_results =
     (let all_success = list_all success (map snd sync_results);
          all_in_sync = list_all in_sync (map snd validation_results)
      in if all_success \<and> all_in_sync then SUCCESS
         else if all_success then PARTIAL_SUCCESS
         else FAILED)"

text \<open>
  The source path of \<^verbatim>\<open>sync_from_file\<close>: the path of a known app, otherwise the
  argument read as a path.
\<close>

definition resolve_source :: "synchronizer \<Rightarrow> string \<Rightarrow> path" where
  "resolve_source sync app_name_or_path =
     (case map_of (CONFIG_FILES sync) app_name_or_path of
        Some p \<Rightarrow> p
      | None \<Rightarrow> Path app_name_or_path)"

definition sync_from_file ::
  "(report list \<Rightarrow> bool) \<Rightarrow> synchronizer \<Rightarrow> filesystem \<Rightarrow> string \<Rightarrow> bool \<Rightarrow>
   py_error + (bool \<times> synchronizer \<times> filesystem)" where
  "sync_from_file confirm sync fs app_name_or_path force =
     (let source_path = resolve_source sync app_name_or_path
      in if \<not> path_exists fs source_path then Inr (False, sync, fs)
         else
           (case load_existing_config fs source_path of
              None \<Rightarrow> Inr (False, sync, fs)
            | Some source_config \<Rightarrow>
           (case extract_mcp_config (detect_config_format source_config) source_config of
              Inl e \<Rightarrow> Inl e
            | Inr mcp_config \<Rightarrow>
                if \<not> py_truthy mcp_config then Inr (False, sync, fs)
                else
                  (case update_configs confirm (sync\<lparr>config := mcp_config\<rparr>) fs JNull force of
                     Inl e \<Rightarrow> Inl e
                   | Inr (sync_results, sync2, fs2) \<Rightarrow>
                  (case validate_configs sync2 fs2 JNull of
                     Inl e \<Rightarrow> Inl e
                   | Inr (all_in_sync, validation_results) \<Rightarrow>
                       Inr (overall_status sync_results validation_results = SUCCESS,
                            sync2, fs2))))))"

section \<open>The debouncing watcher\<close>

text \<open>
  \<^verbatim>\<open>MCPConfigWatcher\<close>. A \<^verbatim>\<open>threading.Timer\<close> is identified by the order in which it
  was started and carries its \<^verbatim>\<open>args=(source_app, file_path)\<close>. The watcher state
  is the dict \<open>pending_syncs\<close>, with the timers started and the timers cancelled so
  far and the calls made to \<^verbatim>\<open>sync_from_file\<close>. Handlers run one at a time, as under
  the watcher's lock; time itself is not modelled: a timer that is neither cancelled
  nor fired may fire at any later step.
\<close>

record timer =
  timer_id :: nat
  timer_app :: string
  timer_path :: path

record watcher =
  pending_syncs :: "(string \<times> timer) list"
  started :: "timer list"
  cancelled :: "nat list"
  sync_calls :: "string list"

definition is_sync_in_progress :: "watcher \<Rightarrow> string \<Rightarrow> bool" where
  "is_sync_in_progress w app = has_key app (pending_syncs w)"

definition schedule_sync :: "watcher \<Rightarrow> string \<Rightarrow> path \<Rightarrow> watcher" where
  "schedule_sync w source_app file_path =
     (let w1 = (case map_of (pending_syncs w) source_app of
                  Some t \<Rightarrow> w\<lparr>cancelled := cancelled w @ [timer_id t]\<rparr>
                | None \<Rightarrow> w);
          t = \<lparr>timer_id = length (started w1), timer_app = source_app,
               timer_path = file_path\<rparr>
      in w1\<lparr>started := started w1 @ [t],
            pending_syncs := AList.update source_app t (pending_syncs w1)\<rparr>)"

text \<open>
  The search loop of \<^verbatim>\<open>on_modified\<close>; \<open>samefile\<close> is \<^verbatim>\<open>Path.samefile\<close>, a relation
  of the environment (two paths may name one file).
\<close>

fun find_source_app ::
  "(path \<Rightarrow> path \<Rightarrow> bool) \<Rightarrow> filesystem \<Rightarrow> (string \<times> path) list \<Rightarrow> path \<Rightarrow> string option" where
  "find_source_app samefile fs [] file_path = None"
| "find_source_app samefile fs ((app, config_path) # rest) file_path =
     (if path_exists fs file_path \<and> path_exists fs config_path \<and> samefile file_path config_path
      then Some app
      else find_source_app samefile fs rest file_path)"

definition on_modified ::
  "(path \<Rightarrow> path \<Rightarrow> bool) \<Rightarrow> synchronizer \<Rightarrow> filesystem \<Rightarrow> watcher \<Rightarrow> bool \<Rightarrow> string \<Rightarrow> watcher" where
  "on_modified samefile sync fs w is_directory src_path =
     (if is_directory then w
      else
        (let file_path = Path src_path in
         case find_source_app samefile fs (CONFIG_FILES sync) file_path of
           None \<Rightarrow> w
         | Some source_app \<Rightarrow>
             if source_app = [] then w
             else if is_sync_in_progress w source_app then w
             else schedule_sync w source_app file_path))"

text \<open>
  \<^verbatim>\<open>_execute_sync\<close>, the timer's callback: it calls
  \<^verbatim>\<open>sync_from_file(source_app)\<close>, recorded in \<open>sync_calls\<close>, and in its \<^verbatim>\<open>finally\<close>
  pops the app from \<open>pending_syncs\<close>.
\<close>

definition execute_sync :: "watcher \<Rightarrow> string \<Rightarrow> path \<Rightarrow> watcher" where
  "execute_sync w source_app file_path =
     w\<lparr>sync_calls := sync_calls w @ [source_app],
       pending_syncs := AList.delete source_app (pending_syncs w)\<rparr>"

text \<open>A burst of modification events, none of them for a directory.\<close>

fun handle_events ::
  "(path \<Rightarrow> path \<Rightarrow> bool) \<Rightarrow> synchronizer \<Rightarrow> filesystem \<Rightarrow> watcher \<Rightarrow> string list \<Rightarrow> watcher" where
  "handle_events samefile sync fs w [] = w"
| "handle_events samefile sync fs w (src_path # rest) =
     handle_events samefile sync fs (on_modified samefile sync fs w False src_path) rest"

text \<open>The callbacks of the given timers, run in order.\<close>

fun fire_timers :: "watcher \<Rightarrow> timer list \<Rightarrow> watcher" where
  "fire_timers w [] = w"
| "fire_timers w (t # ts) = fire_timers (execute_sync w (timer_app t) (timer_path t)) ts"

text \<open>The timer \<^verbatim>\<open>_schedule_sync\<close> creates in watcher state \<open>w\<close> for an event at \<open>src_path\<close>.\<close>

definition first_timer :: "watcher \<Rightarrow> string \<Rightarrow> string \<Rightarrow> timer" where
  "first_timer w app src_path =
     \<lparr>timer_id = length (started w), timer_app = app, timer_path = Path src_path\<rparr>"

section \<open>Scenarios\<close>

text \<open>
  A Windsurf target (written with the standard handler) whose file still holds an
  \<^verbatim>\<open>mcpServers\<close> section, and a canonical configuration with one server.
\<close>

definition windsurf_path :: path where
  "windsurf_path = [''windsurf'', ''mcp_config.json'']"

definition stale_sync :: synchronizer where
  "stale_sync =
     \<lparr>CONFIG_FILES = [(''Windsurf'', windsurf_path)],
      config = JObj [(''servers'', JObj [(''new'', JObj [])])]\<rparr>"

definition stale_fs :: filesystem where
  "stale_fs =
     \<lparr>files = [windsurf_path \<mapsto> Json [(''mcpServers'', JObj [(''old'', JObj [])])]],
      dirs = {}, read_only = {}\<rparr>"

text \<open>The VSCode settings of the spec's scenario, and its canonical configuration.\<close>

definition vscode_settings :: dict where
  "vscode_settings = [(''editor.fontSize'', JNum 14), (''mcp'', JObj [])]"

definition fs_server_config :: json where
  "fs_server_config =
     JObj [(''servers'',
            JObj [(''fs'', JObj [(''command'', JStr ''npx''), (''args'', JArr [JStr ''x''])])])]"

text \<open>
  The spec's destructive scenario: the Claude target has servers \<open>a\<close> and \<open>b\<close>, the
  canonical configuration only \<open>a\<close>; the Windsurf target has no file yet.
\<close>

definition claude_path :: path where
  "claude_path = [''Claude'', ''claude_desktop_config.json'']"

definition destructive_sync :: synchronizer where
  "destructive_sync =
     \<lparr>CONFIG_FILES = [(''Claude'', claude_path), (''Windsurf'', windsurf_path)],
      config = JObj [(''servers'', JObj [(''a'', JObj [])])]\<rparr>"

definition destructive_fs :: filesystem where
  "destructive_fs =
     \<lparr>files = [claude_path \<mapsto>
                 Json [(''mcpServers'', JObj [(''a'', JObj []), (''b'', JObj [])])]],
      dirs = {}, read_only = {}\<rparr>"

definition destructive_report :: report where
  "destructive_report =
     \<lparr>app_name = ''Claude'', existing_servers = [''a'', ''b''], lost_servers = [''b''],
      remaining_servers = [''a'']\<rparr>"

text \<open>A file system with no file, and one whose Windsurf file is not JSON.\<close>

definition empty_fs :: filesystem where
  "empty_fs = \<lparr>files = Map.empty, dirs = {}, read_only = {}\<rparr>"

definition malformed_fs :: filesystem where
  "malformed_fs = \<lparr>files = [windsurf_path \<mapsto> Malformed], dirs = {}, read_only = {}\<rparr>"

definition blank_fs :: filesystem where
  "blank_fs = \<lparr>files = [windsurf_path \<mapsto> Json []], dirs = {}, read_only = {}\<rparr>"

text \<open>The operator's answers: always no, always yes.\<close>

definition declines :: "report list \<Rightarrow> bool" where
  "declines ds = False"

definition accepts :: "report list \<Rightarrow> bool" where
  "accepts ds = True"

text \<open>The destructive scenario with a Windsurf file that is not JSON.\<close>

definition cancel_fs :: filesystem where
  "cancel_fs =
     \<lparr>files = [claude_path \<mapsto>
                 Json [(''mcpServers'', JObj [(''a'', JObj []), (''b'', JObj [])])],
               windsurf_path \<mapsto> Malformed],
      dirs = {}, read_only = {}\<rparr>"

text \<open>
  The Windsurf file with a second name for it in the same directory (a hard link), and
  a watcher with nothing pending.
\<close>

definition link_path :: path where
  "link_path = [''windsurf'', ''link.json'']"

definition hard_linked :: "path \<Rightarrow> path \<Rightarrow> bool" where
  "hard_linked a b =
     (a \<in> set [windsurf_path, link_path] \<and> b \<in> set [windsurf_path, link_path])"

definition linked_fs :: filesystem where
  "linked_fs =
     \<lparr>files = [windsurf_path \<mapsto> Json [], link_path \<mapsto> Json []],
      dirs = {[], [''windsurf'']}, read_only = {}\<rparr>"

definition idle_watcher :: watcher where
  "idle_watcher = \<lparr>pending_syncs = [], started = [], cancelled = [], sync_calls = []\<rparr>"

section \<open>Basic facts about dicts\<close>

lemma has_key_simps [simp]:
  "has_key k [] = False"
  "has_key k ((k', v) # d) = (k = k' \<or> has_key k d)"
  by (auto simp: has_key_def split: option.splits)

lemma dict_get_simps [simp]:
  "dict_get [] k dflt = dflt"
  "dict_get ((k', v) # d) k dflt = (if k = k' then v else dict_get d k dflt)"
  by (auto simp: dict_get_def split: option.splits)

section \<open>Frame properties of the file operations\<close>

lemma mkdir_parents_frame:
  assumes "mkdir_parents fs d = Inr fs'"
  shows "files fs' = files fs" "read_only fs' = read_only fs"
    "dirs fs' = dirs fs \<union> set (prefixes d)"
  using assms by (auto simp: mkdir_parents_def split: if_splits)

lemma ensure_directories_frame:
  assumes "ensure_directories cfs fs = Inr fs'"
  shows "files fs' = files fs \<and> read_only fs' = read_only fs \<and> dirs fs \<subseteq> dirs fs'"
  using assms
proof (induction cfs arbitrary: fs)
  case Nil
  then show ?case by simp
next
  case (Cons a cfs)
  obtain app p where a: "a = (app, p)" by (cases a)
  from Cons.prems a obtain fs1 where m: "mkdir_parents fs (parent p) = Inr fs1"
    and e: "ensure_directories cfs fs1 = Inr fs'"
    by (auto split: sum.splits)
  from Cons.IH [OF e] mkdir_parents_frame [OF m] show ?case by auto
qed

lemma ensure_directories_parents:
  assumes "ensure_directories cfs fs = Inr fs'" and "(app, p) \<in> set cfs"
  shows "parent p \<in> dirs fs'"
  using assms
proof (induction cfs arbitrary: fs)
  case Nil
  then show ?case by simp
next
  case (Cons a cfs)
  obtain app' p' where a: "a = (app', p')" by (cases a)
  from Cons.prems a obtain fs1 where m: "mkdir_parents fs (parent p') = Inr fs1"
    and e: "ensure_directories cfs fs1 = Inr fs'"
    by (auto split: sum.splits)
  show ?case
  proof (cases "(app, p) = a")
    case True
    with a have "parent p \<in> dirs fs1" using mkdir_parents_frame(3) [OF m] by simp
    with ensure_directories_frame [OF e] show ?thesis by auto
  next
    case False
    with Cons.prems have "(app, p) \<in> set cfs" by simp
    from Cons.IH [OF e this] show ?thesis .
  qed
qed

lemma update_target_frame:
  assumes "update_target cfg fs app p = (r, fs')"
  shows "dirs fs' = dirs fs" "read_only fs' = read_only fs"
    "q \<noteq> p \<Longrightarrow> files fs' q = files fs q"
  using assms
  by (auto simp: update_target_def write_config_def Let_def
      split: option.splits sum.splits if_splits)

lemma update_loop_dirs:
  assumes "update_loop cfg cfs results fs = (results', fs')"
  shows "dirs fs' = dirs fs"
  using assms
proof (induction cfs arbitrary: results fs)
  case Nil
  then show ?case by simp
next
  case (Cons a cfs)
  obtain app p where a: "a = (app, p)" by (cases a)
  obtain r fs1 where u: "update_target cfg fs app p = (r, fs1)"
    by (cases "update_target cfg fs app p")
  with Cons.prems a
  have "update_loop cfg cfs (AList.update app r results) fs1 = (results', fs')" by simp
  from Cons.IH [OF this] update_target_frame(1) [OF u] show ?case by simp
qed

lemma update_target_malformed:
  assumes "files fs q = Some Malformed" and "update_target cfg fs app p = (r, fs')"
  shows "files fs' q = Some Malformed" and "p = q \<Longrightarrow> r = skipped_result q"
proof -
  have l: "load_existing_config fs q = None"
    using assms(1) by (simp add: load_existing_config_def path_exists_def)
  show "files fs' q = Some Malformed"
  proof (cases "p = q")
    case True
    with l assms(2) have "fs' = fs" by (simp add: update_target_def)
    with assms(1) show ?thesis by simp
  next
    case False
    then have "q \<noteq> p" by simp
    from update_target_frame(3) [OF assms(2) this] assms(1) show ?thesis by simp
  qed
  show "r = skipped_result q" if "p = q"
    using that l assms(2) by (simp add: update_target_def)
qed

lemma update_loop_malformed:
  assumes "files fs q = Some Malformed" and "update_loop cfg cfs results fs = (results', fs')"
  shows "files fs' q = Some Malformed"
  using assms
proof (induction cfs arbitrary: results fs)
  case Nil
  then show ?case by simp
next
  case (Cons a cfs)
  obtain app p where a: "a = (app, p)" by (cases a)
  obtain r fs1 where u: "update_target cfg fs app p = (r, fs1)"
    by (cases "update_target cfg fs app p")
  with Cons.prems a
  have l: "update_loop cfg cfs (AList.update app r results) fs1 = (results', fs')" by simp
  from update_target_malformed(1) [OF Cons.prems(1) u] have "files fs1 q = Some Malformed" .
  from Cons.IH [OF this l] show ?case .
qed

lemma update_loop_other_apps:
  assumes "app \<notin> fst ` set cfs" and "update_loop cfg cfs results fs = (results', fs')"
  shows "map_of results' app = map_of results app"
  using assms
proof (induction cfs arbitrary: results fs)
  case Nil
  then show ?case by simp
next
  case (Cons a cfs)
  obtain app' p where a: "a = (app', p)" by (cases a)
  obtain r fs1 where u: "update_target cfg fs app' p = (r, fs1)"
    by (cases "update_target cfg fs app' p")
  with Cons.prems a
  have l: "update_loop cfg cfs (AList.update app' r results) fs1 = (results', fs')" by simp
  from Cons.prems(1) a have n: "app \<notin> fst ` set cfs" "app \<noteq> app'" by auto
  from Cons.IH [OF n(1) l] n(2) show ?case by (simp add: update_conv')
qed

lemma update_loop_skipped:
  assumes "files fs q = Some Malformed" and "(app, q) \<in> set cfs"
    and "distinct (map fst cfs)"
    and "update_loop cfg cfs results fs = (results', fs')"
  shows "map_of results' app = Some (skipped_result q)"
  using assms
proof (induction cfs arbitrary: results fs)
  case Nil
  then show ?case by simp
next
  case (Cons a cfs)
  obtain app' p where a: "a = (app', p)" by (cases a)
  obtain r fs1 where u: "update_target cfg fs app' p = (r, fs1)"
    by (cases "update_target cfg fs app' p")
  with Cons.prems a
  have l: "update_loop cfg cfs (AList.update app' r results) fs1 = (results', fs')" by simp
  from update_target_malformed [OF Cons.prems(1) u]
  have m: "files fs1 q = Some Malformed" and s: "p = q \<Longrightarrow> r = skipped_result q" by auto
  show ?case
  proof (cases "(app, q) = a")
    case True
    with a have e: "app' = app" "p = q" by auto
    with Cons.prems(3) a have "app \<notin> fst ` set cfs" by auto
    from update_loop_other_apps [OF this l] e s show ?thesis by (simp add: update_conv')
  next
    case False
    with Cons.prems(2) have i: "(app, q) \<in> set cfs" by simp
    from Cons.prems(3) have d: "distinct (map fst cfs)" by simp
    from Cons.IH [OF m i d l] show ?thesis .
  qed
qed

lemma map_of_cancelled:
  "(app, p) \<in> set cfs \<Longrightarrow> map_of (map (\<lambda>(a, q). (a, c)) cfs) app = Some c"
  by (induction cfs) auto

lemmas scenario_defs =
  stale_sync_def stale_fs_def windsurf_path_def claude_path_def destructive_sync_def
  destructive_fs_def destructive_report_def empty_fs_def malformed_fs_def blank_fs_def
  declines_def accepts_def cancel_fs_def link_path_def hard_linked_def linked_fs_def
  idle_watcher_def

lemmas run_defs =
  update_configs_def parent_def mkdir_parents_def check_destructive_operations_def
  path_exists_def load_existing_config_def existing_servers_of_def
  detect_config_format_def FORMAT_HANDLERS_def removal_report_def dict_keys_def
  update_target_def get_app_handler_def APP_HANDLERS_def write_config_def
  written_result_def validate_configs_def validate_target_def servers_or_empty_def
  compared_result_def Let_def

section \<open>Properties of the router\<close>

lemma has_key_iff: "has_key k d \<longleftrightarrow> k \<in> fst ` set d"
  by (auto simp: has_key_def dom_map_of_conv_image_fst [symmetric] split: option.splits)

lemma detect_config_format_claude_first:
  "has_key ''mcpServers'' config_data \<Longrightarrow> detect_config_format config_data = ClaudeDesktopHandler"
  by (simp add: detect_config_format_def FORMAT_HANDLERS_def)

lemma detect_config_format_not_cursor: "detect_config_format config_data \<noteq> CursorHandler"
  by (simp add: detect_config_format_def FORMAT_HANDLERS_def)

text \<open>
  Claim C1. A document holding both an \<^verbatim>\<open>mcpServers\<close> key and a dict-valued \<^verbatim>\<open>mcp\<close>
  key should be routed to the Cursor handler. On the document
  \<^verbatim>\<open>{"mcpServers": {}, "mcp": {}}\<close> the Cursor predicate holds, yet the router
  returns the Claude Desktop handler: it is first in \<^const>\<open>FORMAT_HANDLERS\<close> and its
  predicate asks for \<^verbatim>\<open>mcpServers\<close> alone.
\<close>

theorem C1_router_returns_claude_for_cursor_document:
  "detect_format CursorHandler [(''mcpServers'', JObj []), (''mcp'', JObj [])] \<and>
   detect_config_format [(''mcpServers'', JObj []), (''mcp'', JObj [])] = ClaudeDesktopHandler"
  by (simp add: detect_config_format_def FORMAT_HANDLERS_def has_key_def)

section \<open>Properties of the handlers\<close>

text \<open>
  Claim C9. For every handler, every input document and every canonical configuration,
  when \<^verbatim>\<open>merge_mcp_config\<close> returns a document, every top-level key outside the
  handler's MCP-relevant keys is bound in the output exactly as in the input: no
  unrelated key is deleted, altered or added.
\<close>

theorem C9_merge_keeps_unrelated_keys:
  assumes "merge_mcp_config h existing_config mcp_config = Inr out"
    and "k \<notin> set (mcp_keys h)"
  shows "map_of out k = map_of existing_config k"
  using assms
  by (cases h)
     (auto simp: mcp_keys_def update_conv' delete_conv' Let_def split: if_splits json.splits)

theorem C9_merge_keeps_unrelated_keys_witness:
  "merge_mcp_config VSCodeHandler vscode_settings fs_server_config =
     Inr [(''editor.fontSize'', JNum 14),
          (''mcp'', JObj [(''servers'',
                           JObj [(''fs'', JObj [(''command'', JStr ''npx''),
                                                (''args'', JArr [JStr ''x''])])]),
                          (''inputs'', JArr [])])] \<and>
   map_of [(''editor.fontSize'', JNum 14),
           (''mcp'', JObj [(''servers'',
                            JObj [(''fs'', JObj [(''command'', JStr ''npx''),
                                                 (''args'', JArr [JStr ''x''])])]),
                           (''inputs'', JArr [])])] ''editor.fontSize'' =
     map_of vscode_settings ''editor.fontSize''"
proof (rule conjI)
  show m: "merge_mcp_config VSCodeHandler vscode_settings fs_server_config =
     Inr [(''editor.fontSize'', JNum 14),
          (''mcp'', JObj [(''servers'',
                           JObj [(''fs'', JObj [(''command'', JStr ''npx''),
                                                (''args'', JArr [JStr ''x''])])]),
                          (''inputs'', JArr [])])]"
    by (simp add: vscode_settings_def fs_server_config_def ensure_inputs_def)
  have k: "''editor.fontSize'' \<notin> set (mcp_keys VSCodeHandler)"
    by (simp add: mcp_keys_def)
  show "map_of [(''editor.fontSize'', JNum 14),
           (''mcp'', JObj [(''servers'',
                            JObj [(''fs'', JObj [(''command'', JStr ''npx''),
                                                 (''args'', JArr [JStr ''x''])])]),
                           (''inputs'', JArr [])])] ''editor.fontSize'' =
     map_of vscode_settings ''editor.fontSize''"
    by (rule C9_merge_keeps_unrelated_keys [OF m k])
qed

section \<open>Properties of the deep merge\<close>

text \<open>
  When \<^verbatim>\<open>deep_merge\<close> returns on a dict base, the result is a dict whose bindings are
  the merged bindings, key by key.
\<close>

lemma deep_merge_lookup:
  assumes "deep_merge (JObj b) ov = Inr r" and "distinct (map fst ov)"
  shows "\<exists>m. r = JObj m \<and> (\<forall>k. map_of m k = merged_binding (map_of b k) (map_of ov k))"
  using assms
proof (induction ov arbitrary: b)
  case Nil
  then show ?case by (auto simp: merged_binding_def)
next
  case (Cons a ov)
  obtain key val where a: "a = (key, val)" by (cases a)
  from Cons.prems(2) a have fresh: "map_of ov key = None" and d: "distinct (map fst ov)"
    by (auto simp: map_of_eq_None_iff)
  from Cons.prems(1) a obtain x where x: "merged_binding (map_of b key) (Some val) = Some x"
    and rest: "deep_merge (JObj (AList.update key x b)) ov = Inr r"
    by (cases val) (auto simp: merged_binding_def has_key_def dict_get_def
        split: sum.splits if_splits option.splits)
  from Cons.IH [OF rest d] obtain m where m: "r = JObj m"
    and l: "\<forall>k. map_of m k = merged_binding (map_of (AList.update key x b) k) (map_of ov k)"
    by blast
  have "map_of m k = merged_binding (map_of b k) (map_of (a # ov) k)" for k
  proof (cases "k = key")
    case True
    with l fresh x a show ?thesis by (simp add: update_conv' merged_binding_def)
  next
    case False
    with l a show ?thesis by (simp add: update_conv')
  qed
  with m show ?case by blast
qed

text \<open>
  Claim C8. Where a key is in both mappings and the values are not both mappings, the
  overlay's value should win. With base \<^verbatim>\<open>{"a": 5}\<close> and overlay
  \<^verbatim>\<open>{"a": {"b": 1}}\<close> the call raises \<^verbatim>\<open>TypeError\<close>, and with overlay
  \<^verbatim>\<open>{"a": {}}\<close> the result keeps the base's \<^verbatim>\<open>5\<close>: \<^verbatim>\<open>deep_merge\<close> recurses
  whenever the overlay's value is a dict and the key is in the base, whatever the
  base holds there.
\<close>

theorem C8_deep_merge_into_non_mapping:
  "merge_configs (JObj [(''a'', JNum 5)]) (JObj [(''a'', JObj [(''b'', JNum 1)])]) =
     Inl TypeError \<and>
   merge_configs (JObj [(''a'', JNum 5)]) (JObj [(''a'', JObj [])]) =
     Inr (JObj [(''a'', JNum 5)])"
  by (simp add: merge_configs_def)

section \<open>Properties of synchronisation\<close>

text \<open>
  Claim C2. After an uncancelled \<^verbatim>\<open>update_configs\<close>, validation should report
  \<^verbatim>\<open>in_sync = true\<close> for every target that was written. For the Windsurf target
  whose file holds a stale \<^verbatim>\<open>mcpServers\<close> section the write succeeds and validation
  reports \<^verbatim>\<open>in_sync = false\<close>: the written document keeps \<^verbatim>\<open>mcpServers\<close> beside
  the new \<^verbatim>\<open>mcp\<close>, the router reads it as Claude Desktop, and the stale servers are
  compared with the canonical ones.
\<close>

theorem C2_written_target_reported_out_of_sync:
  "sync_then_validate declines stale_sync stale_fs False =
     Inr ([(''Windsurf'', True)], [(''Windsurf'', False)])"
  by (simp add: sync_then_validate_def scenario_defs run_defs)

text \<open>
  Claim C10. \<^verbatim>\<open>update_configs\<close> creates the parent directory of every target before
  it checks for destructive changes and asks the operator: whenever it returns, also
  with every target cancelled, the parent directory of every target exists.
\<close>

theorem C10_parent_directories_exist:
  assumes "update_configs confirm sync fs custom_config force = Inr (results, sync', fs')"
    and "(app, p) \<in> set (CONFIG_FILES sync)"
  shows "parent p \<in> dirs fs'"
proof -
  from assms(1) obtain fs1 where e: "ensure_directories (CONFIG_FILES sync) fs = Inr fs1"
    by (auto simp: update_configs_def split: sum.splits)
  from ensure_directories_parents [OF e assms(2)] have p1: "parent p \<in> dirs fs1" .
  from assms(1) e have "dirs fs' = dirs fs1"
    by (auto simp: update_configs_def Let_def split: sum.splits if_splits prod.splits
        dest: update_loop_dirs)
  with p1 show ?thesis by simp
qed

theorem C10_parent_directories_exist_witness:
  "update_configs declines destructive_sync destructive_fs JNull False =
     Inr ([(''Claude'', cancelled_result), (''Windsurf'', cancelled_result)],
          destructive_sync,
          destructive_fs\<lparr>dirs := {[], [''Claude''], [''windsurf'']}\<rparr>) \<and>
   parent claude_path \<notin> dirs destructive_fs \<and>
   parent claude_path \<in> dirs (destructive_fs\<lparr>dirs := {[], [''Claude''], [''windsurf'']}\<rparr>)"
proof (intro conjI)
  show u: "update_configs declines destructive_sync destructive_fs JNull False =
     Inr ([(''Claude'', cancelled_result), (''Windsurf'', cancelled_result)],
          destructive_sync,
          destructive_fs\<lparr>dirs := {[], [''Claude''], [''windsurf'']}\<rparr>)"
    by (auto simp: scenario_defs run_defs)
  have m: "(''Claude'', claude_path) \<in> set (CONFIG_FILES destructive_sync)"
    by (simp add: destructive_sync_def)
  show "parent claude_path \<notin> dirs destructive_fs"
    by (simp add: destructive_fs_def)
  show "parent claude_path \<in> dirs (destructive_fs\<lparr>dirs := {[], [''Claude''], [''windsurf'']}\<rparr>)"
    by (rule C10_parent_directories_exist [OF u m])
qed

text \<open>
  Claim C4. When the destructive-change check of \<^verbatim>\<open>update_configs\<close> (run after the
  directories are ensured and the custom configuration is merged) reports something,
  \<^verbatim>\<open>force\<close> is false and the operator declines, the call returns with no file
  written, and the returned mapping gives every target the action \<^verbatim>\<open>cancelled\<close> with
  \<^verbatim>\<open>success = False\<close>.
\<close>

theorem C4_declined_confirmation_cancels_all:
  assumes "ensure_directories (CONFIG_FILES sync) fs = Inr fs1"
    and "(if py_truthy custom_config then merge_configs (config sync) custom_config
          else Inr (config sync)) = Inr cfg"
    and "check_destructive_operations (sync\<lparr>config := cfg\<rparr>) fs1 = Inr destructive_apps"
    and "destructive_apps \<noteq> []" and "\<not> force" and "\<not> confirm destructive_apps"
  shows "\<exists>results sync' fs'.
           update_configs confirm sync fs custom_config force = Inr (results, sync', fs') \<and>
           files fs' = files fs \<and>
           (\<forall>(app, p) \<in> set (CONFIG_FILES sync).
              \<exists>r. map_of results app = Some r \<and> action r = Cancelled \<and> \<not> success r)"
proof -
  let ?results = "map (\<lambda>(app, config_path). (app, cancelled_result)) (CONFIG_FILES sync)"
  have u: "update_configs confirm sync fs custom_config force =
             Inr (?results, sync\<lparr>config := cfg\<rparr>, fs1)"
    using assms by (simp add: update_configs_def Let_def)
  have f: "files fs1 = files fs" using ensure_directories_frame [OF assms(1)] by simp
  have "\<exists>r. map_of ?results app = Some r \<and> action r = Cancelled \<and> \<not> success r"
    if "(app, p) \<in> set (CONFIG_FILES sync)" for app p
    using map_of_cancelled [OF that, of cancelled_result] by (simp add: cancelled_result_def)
  with u f show ?thesis by blast
qed

theorem C4_declined_confirmation_cancels_all_witness:
  "\<exists>results sync' fs'.
     update_configs declines destructive_sync destructive_fs JNull False =
       Inr (results, sync', fs') \<and>
     files fs' = files destructive_fs \<and>
     (\<forall>(app, p) \<in> set (CONFIG_FILES destructive_sync).
        \<exists>r. map_of results app = Some r \<and> action r = Cancelled \<and> \<not> success r)"
proof -
  have e: "ensure_directories (CONFIG_FILES destructive_sync) destructive_fs =
             Inr (destructive_fs\<lparr>dirs := {[], [''Claude''], [''windsurf'']}\<rparr>)"
    by (auto simp: scenario_defs run_defs)
  have m: "(if py_truthy JNull then merge_configs (config destructive_sync) JNull
            else Inr (config destructive_sync)) = Inr (config destructive_sync)"
    by simp
  have c: "check_destructive_operations (destructive_sync\<lparr>config := config destructive_sync\<rparr>)
             (destructive_fs\<lparr>dirs := {[], [''Claude''], [''windsurf'']}\<rparr>) =
           Inr [destructive_report]"
    by (simp add: scenario_defs run_defs)
  show ?thesis
    by (rule C4_declined_confirmation_cancels_all [OF e m c]) (simp_all add: declines_def)
qed

text \<open>
  Claim C6. When the source of \<^verbatim>\<open>sync_from_file\<close> does not exist, cannot be loaded,
  or extracts to an empty mapping, the call returns \<^verbatim>\<open>False\<close> and leaves the
  synchronizer (its canonical configuration) and the file system as they were.
\<close>

theorem C6_unusable_source_changes_nothing:
  assumes "\<not> path_exists fs (resolve_source sync src) \<or>
           load_existing_config fs (resolve_source sync src) = None \<or>
           (\<exists>d. load_existing_config fs (resolve_source sync src) = Some d \<and>
                extract_mcp_config (detect_config_format d) d = Inr (JObj []))"
  shows "sync_from_file confirm sync fs src force = Inr (False, sync, fs)"
  using assms by (auto simp: sync_from_file_def Let_def)

theorem C6_unusable_source_changes_nothing_witness:
  "sync_from_file accepts stale_sync empty_fs ''Windsurf'' True =
     Inr (False, stale_sync, empty_fs) \<and>
   sync_from_file accepts stale_sync malformed_fs ''Windsurf'' True =
     Inr (False, stale_sync, malformed_fs) \<and>
   sync_from_file accepts stale_sync blank_fs ''windsurf/mcp_config.json'' True =
     Inr (False, stale_sync, blank_fs)"
proof (intro conjI)
  have "\<not> path_exists empty_fs (resolve_source stale_sync ''Windsurf'')"
    by (simp add: scenario_defs resolve_source_def path_exists_def)
  then show "sync_from_file accepts stale_sync empty_fs ''Windsurf'' True =
     Inr (False, stale_sync, empty_fs)"
    by (intro C6_unusable_source_changes_nothing disjI1)
  have "load_existing_config malformed_fs (resolve_source stale_sync ''Windsurf'') = None"
    by (simp add: scenario_defs resolve_source_def path_exists_def load_existing_config_def)
  then show "sync_from_file accepts stale_sync malformed_fs ''Windsurf'' True =
     Inr (False, stale_sync, malformed_fs)"
    by (intro C6_unusable_source_changes_nothing disjI2 disjI1)
  have "load_existing_config blank_fs (resolve_source stale_sync ''windsurf/mcp_config.json'') =
          Some [] \<and>
        extract_mcp_config (detect_config_format []) [] = Inr (JObj [])"
    by (simp add: scenario_defs resolve_source_def path_exists_def load_existing_config_def
        Path_def detect_config_format_def FORMAT_HANDLERS_def)
  then have "\<exists>d. load_existing_config blank_fs
                    (resolve_source stale_sync ''windsurf/mcp_config.json'') = Some d \<and>
                 extract_mcp_config (detect_config_format d) d = Inr (JObj [])"
    by blast
  then show "sync_from_file accepts stale_sync blank_fs ''windsurf/mcp_config.json'' True =
     Inr (False, stale_sync, blank_fs)"
    by (intro C6_unusable_source_changes_nothing disjI2)
qed

text \<open>
  Claim C5, as amended. \<^verbatim>\<open>load_existing_config\<close> returns the empty dict for an
  absent file and \<^verbatim>\<open>None\<close> for a file that is present and is not JSON. A target
  whose file is not JSON is never written by \<^verbatim>\<open>update_configs\<close>, and its result is
  a failure: the skipped one, unless the operator cancelled the run, in which case
  every target is recorded as cancelled.
\<close>

theorem C5_parse_error_blocks_write:
  "(\<not> path_exists fs q \<longrightarrow> load_existing_config fs q = Some []) \<and>
   (files fs q = Some Malformed \<longrightarrow> load_existing_config fs q = None) \<and>
   (files fs p = Some Malformed \<and> (app, p) \<in> set (CONFIG_FILES sync) \<and>
    distinct (map fst (CONFIG_FILES sync)) \<and>
    update_configs confirm sync fs custom_config force = Inr (results, sync', fs') \<longrightarrow>
    files fs' p = Some Malformed \<and>
    (\<exists>r. map_of results app = Some r \<and> \<not> success r \<and>
         (action r = Skipped \<or>
          results = map (\<lambda>(a, c). (a, cancelled_result)) (CONFIG_FILES sync))))"
proof (intro conjI impI)
  show "load_existing_config fs q = Some []" if "\<not> path_exists fs q"
    using that by (simp add: load_existing_config_def)
  show "load_existing_config fs q = None" if "files fs q = Some Malformed"
    using that by (simp add: load_existing_config_def path_exists_def)
next
  assume h: "files fs p = Some Malformed \<and> (app, p) \<in> set (CONFIG_FILES sync) \<and>
    distinct (map fst (CONFIG_FILES sync)) \<and>
    update_configs confirm sync fs custom_config force = Inr (results, sync', fs')"
  then have mal: "files fs p = Some Malformed"
    and mem: "(app, p) \<in> set (CONFIG_FILES sync)"
    and dist: "distinct (map fst (CONFIG_FILES sync))"
    and run: "update_configs confirm sync fs custom_config force = Inr (results, sync', fs')"
    by auto
  from run obtain fs1 where e: "ensure_directories (CONFIG_FILES sync) fs = Inr fs1"
    by (auto simp: update_configs_def split: sum.splits)
  from ensure_directories_frame [OF e] mal have mal1: "files fs1 p = Some Malformed" by simp
  from run e obtain cfg where
    alt: "(results = map (\<lambda>(a, c). (a, cancelled_result)) (CONFIG_FILES sync) \<and> fs' = fs1) \<or>
          update_loop cfg (CONFIG_FILES sync) [] fs1 = (results, fs')"
    by (auto simp: update_configs_def Let_def split: sum.splits if_splits prod.splits)
  from alt show "files fs' p = Some Malformed"
    using mal1 update_loop_malformed [OF mal1] by auto
  from alt show "\<exists>r. map_of results app = Some r \<and> \<not> success r \<and>
         (action r = Skipped \<or>
          results = map (\<lambda>(a, c). (a, cancelled_result)) (CONFIG_FILES sync))"
  proof
    assume c: "results = map (\<lambda>(a, c). (a, cancelled_result)) (CONFIG_FILES sync) \<and> fs' = fs1"
    with map_of_cancelled [OF mem, of cancelled_result]
    show ?thesis by (auto simp: cancelled_result_def)
  next
    assume "update_loop cfg (CONFIG_FILES sync) [] fs1 = (results, fs')"
    from update_loop_skipped [OF mal1 mem dist this]
    show ?thesis by (simp add: skipped_result_def)
  qed
qed

theorem C5_parse_error_blocks_write_witness:
  "load_existing_config empty_fs windsurf_path = Some [] \<and>
   load_existing_config malformed_fs windsurf_path = None \<and>
   update_configs declines stale_sync malformed_fs JNull False =
     Inr ([(''Windsurf'', skipped_result windsurf_path)], stale_sync,
          malformed_fs\<lparr>dirs := {[], [''windsurf'']}\<rparr>) \<and>
   files (malformed_fs\<lparr>dirs := {[], [''windsurf'']}\<rparr>) windsurf_path = Some Malformed \<and>
   (\<exists>r. map_of [(''Windsurf'', skipped_result windsurf_path)] ''Windsurf'' = Some r \<and>
        \<not> success r \<and>
        (action r = Skipped \<or>
         [(''Windsurf'', skipped_result windsurf_path)] =
           map (\<lambda>(a, c). (a, cancelled_result)) (CONFIG_FILES stale_sync)))"
proof -
  have absent: "\<not> path_exists empty_fs windsurf_path"
    by (simp add: scenario_defs path_exists_def)
  have mal: "files malformed_fs windsurf_path = Some Malformed"
    by (simp add: scenario_defs)
  have run: "update_configs declines stale_sync malformed_fs JNull False =
     Inr ([(''Windsurf'', skipped_result windsurf_path)], stale_sync,
          malformed_fs\<lparr>dirs := {[], [''windsurf'']}\<rparr>)"
    by (auto simp: scenario_defs run_defs)
  have mem: "(''Windsurf'', windsurf_path) \<in> set (CONFIG_FILES stale_sync)"
    and dist: "distinct (map fst (CONFIG_FILES stale_sync))"
    by (simp_all add: stale_sync_def)
  note a = C5_parse_error_blocks_write [where fs = empty_fs and q = windsurf_path,
      THEN conjunct1, THEN mp, OF absent]
  note b = C5_parse_error_blocks_write [where fs = malformed_fs and q = windsurf_path,
      THEN conjunct2, THEN conjunct1, THEN mp, OF mal]
  note c = C5_parse_error_blocks_write [where fs = malformed_fs and p = windsurf_path,
      THEN conjunct2, THEN conjunct2, THEN mp, OF conjI [OF mal conjI [OF mem conjI [OF dist run]]]]
  from a b c run show ?thesis by blast
qed

text \<open>
  The claim as stated fails where the run is cancelled: the Windsurf file is not JSON,
  the Claude target would lose a server and the operator declines; the Windsurf
  target is then recorded as cancelled, not as skipped.
\<close>

theorem C5_cancelled_run_counterexample:
  "files cancel_fs windsurf_path = Some Malformed \<and>
   update_configs declines destructive_sync cancel_fs JNull False =
     Inr ([(''Claude'', cancelled_result), (''Windsurf'', cancelled_result)],
          destructive_sync, cancel_fs\<lparr>dirs := {[], [''Claude''], [''windsurf'']}\<rparr>) \<and>
   action cancelled_result \<noteq> Skipped"
  by (auto simp: scenario_defs run_defs cancelled_result_def)

section \<open>Properties of the destructive-change check\<close>

lemma set_dict_keys [simp]: "set (dict_keys m) = fst ` set m"
  by (simp add: dict_keys_def)

lemma length_dict_keys: "length (dict_keys m) = card (fst ` set m)"
  by (simp add: dict_keys_def length_remdups_card_conv)

lemma more_names_some_lost:
  assumes "card (fst ` set sm) < card (fst ` set em)"
  shows "filter (\<lambda>k. k \<notin> fst ` set sm) (dict_keys em) \<noteq> []"
proof
  assume "filter (\<lambda>k. k \<notin> fst ` set sm) (dict_keys em) = []"
  then have "fst ` set em \<subseteq> fst ` set sm" by (auto simp: filter_empty_conv)
  then have "card (fst ` set em) \<le> card (fst ` set sm)" by (intro card_mono) auto
  with assms show False by simp
qed

lemma removal_report_Some_iff:
  "removal_report app es source = Inr (Some r) \<longleftrightarrow>
     (\<exists>em sm. es = JObj em \<and> source = JObj sm \<and>
        card (fst ` set sm) < card (fst ` set em) \<and>
        r = \<lparr>app_name = app, existing_servers = dict_keys em,
             lost_servers = filter (\<lambda>k. k \<notin> fst ` set sm) (dict_keys em),
             remaining_servers = dict_keys sm\<rparr>)"
proof (cases es)
  case (JObj em)
  show ?thesis
  proof (cases source)
    case sm: (JObj sm)
    show ?thesis
      using more_names_some_lost [of sm em]
      by (auto simp: JObj sm removal_report_def Let_def length_dict_keys)
  qed (auto simp: JObj removal_report_def Let_def split: sum.splits)
qed (auto simp: removal_report_def Let_def split: sum.splits json.splits)

lemma load_exists_iff:
  "path_exists fs p \<and> load_existing_config fs p = Some d \<longleftrightarrow> files fs p = Some (Json d)"
  by (auto simp: load_existing_config_def path_exists_def split: option.splits file_content.splits)

lemma check_targets_reports:
  assumes "check_targets source fs cfs = Inr rs"
  shows "set rs = {r. \<exists>app p d es. (app, p) \<in> set cfs \<and> files fs p = Some (Json d) \<and>
                     existing_servers_of d = Inr es \<and>
                     removal_report app es source = Inr (Some r)}"
  using assms
proof (induction cfs arbitrary: rs)
  case Nil
  then show ?case by simp
next
  case (Cons a cfs)
  obtain app p where a: "a = (app, p)" by (cases a)
  let ?here = "{r. \<exists>d es. files fs p = Some (Json d) \<and> existing_servers_of d = Inr es \<and>
                     removal_report app es source = Inr (Some r)}"
  let ?S = "\<lambda>c. {r. \<exists>app p d es. (app, p) \<in> set c \<and> files fs p = Some (Json d) \<and>
                     existing_servers_of d = Inr es \<and>
                     removal_report app es source = Inr (Some r)}"
  have split: "?S (a # cfs) = ?here \<union> ?S cfs" using a by auto
  show ?case
  proof (cases "\<exists>d. files fs p = Some (Json d)")
    case False
    then have "\<not> path_exists fs p \<or> load_existing_config fs p = None"
      using load_exists_iff [of fs p] by (cases "load_existing_config fs p") auto
    with Cons.prems a have "check_targets source fs cfs = Inr rs" by (auto split: if_splits)
    from Cons.IH [OF this] False split show ?thesis by auto
  next
    case True
    then obtain d where d: "files fs p = Some (Json d)" by blast
    then have pe: "path_exists fs p" "load_existing_config fs p = Some d"
      using load_exists_iff [of fs p d] by auto
    from Cons.prems a pe obtain es r rs' where
      es: "existing_servers_of d = Inr es" and r: "removal_report app es source = Inr r"
      and rest: "check_targets source fs cfs = Inr rs'"
      and rs: "rs = (case r of None \<Rightarrow> rs' | Some x \<Rightarrow> x # rs')"
      by (auto split: sum.splits)
    have "?here = (case r of None \<Rightarrow> {} | Some x \<Rightarrow> {x})"
      using d es r by (auto split: option.splits)
    with Cons.IH [OF rest] rs split show ?thesis by (auto split: option.splits)
  qed
qed




lemma removal_report_app_name:
  "removal_report app es source = Inr (Some r) \<Longrightarrow> app_name r = app"
  by (auto simp: removal_report_Some_iff)

lemma reports_of_app:
  assumes ct: "check_targets source fs cfs = Inr reports"
    and dist: "distinct (map fst cfs)" and mem: "(app, p) \<in> set cfs"
  shows "r \<in> set reports \<and> app_name r = app \<longleftrightarrow>
           (\<exists>d es. files fs p = Some (Json d) \<and> existing_servers_of d = Inr es \<and>
              removal_report app es source = Inr (Some r))"
proof
  assume a: "r \<in> set reports \<and> app_name r = app"
  then have "r \<in> set reports" by simp
  then obtain app' p' d es where m: "(app', p') \<in> set cfs"
    and f: "files fs p' = Some (Json d)" and e: "existing_servers_of d = Inr es"
    and rr: "removal_report app' es source = Inr (Some r)"
    unfolding check_targets_reports [OF ct] by blast
  from removal_report_app_name [OF rr] a have "app' = app" by simp
  with m have "(app, p') \<in> set cfs" by simp
  from eq_key_imp_eq_value [OF dist this mem] have "p' = p" .
  with f e rr \<open>app' = app\<close>
  show "\<exists>d es. files fs p = Some (Json d) \<and> existing_servers_of d = Inr es \<and>
              removal_report app es source = Inr (Some r)" by blast
next
  assume "\<exists>d es. files fs p = Some (Json d) \<and> existing_servers_of d = Inr es \<and>
              removal_report app es source = Inr (Some r)"
  then obtain d es where f: "files fs p = Some (Json d)"
    and e: "existing_servers_of d = Inr es"
    and rr: "removal_report app es source = Inr (Some r)" by blast
  with mem have "r \<in> set reports" unfolding check_targets_reports [OF ct] by blast
  with removal_report_app_name [OF rr] show "r \<in> set reports \<and> app_name r = app" by simp
qed


lemma more_names_facts:
  fixes sm em :: dict
  assumes "card (fst ` set sm) < card (fst ` set em)"
  shows "em \<noteq> []" and "fst ` set em - fst ` set sm \<noteq> {}"
proof -
  from assms show "em \<noteq> []" by auto
  from more_names_some_lost [OF assms] obtain k where "k \<in> fst ` set em" "k \<notin> fst ` set sm"
    by (auto simp: filter_empty_conv)
  then show "fst ` set em - fst ` set sm \<noteq> {}" by blast
qed

text \<open>
  Claim C7. When \<^verbatim>\<open>check_destructive_operations\<close> returns, a target is reported
  exactly when its file holds a JSON document whose extracted servers are a non-empty
  mapping with strictly more names than the canonical servers and with a name the
  canonical servers lack; the report lists the existing names, the names to be lost
  (that difference) and the canonical names. A target with as many server names as
  the canonical configuration is not reported, whatever the names are.
\<close>

theorem C7_destructive_reports_exact:
  assumes chk: "check_destructive_operations sync fs = Inr reports"
    and dist: "distinct (map fst (CONFIG_FILES sync))"
    and mem: "(app, p) \<in> set (CONFIG_FILES sync)"
  shows "(app \<in> app_name ` set reports \<longleftrightarrow>
            (\<exists>d es ss. files fs p = Some (Json d) \<and> existing_servers_of d = Inr (JObj es) \<and>
               py_get (config sync) ''servers'' (JObj []) = Inr (JObj ss) \<and> es \<noteq> [] \<and>
               card (set (dict_keys ss)) < card (set (dict_keys es)) \<and>
               set (dict_keys es) - set (dict_keys ss) \<noteq> {})) \<and>
         (\<forall>r \<in> set reports. app_name r = app \<longrightarrow>
            (\<exists>d es ss. files fs p = Some (Json d) \<and> existing_servers_of d = Inr (JObj es) \<and>
               py_get (config sync) ''servers'' (JObj []) = Inr (JObj ss) \<and>
               set (existing_servers r) = set (dict_keys es) \<and>
               set (lost_servers r) = set (dict_keys es) - set (dict_keys ss) \<and>
               set (remaining_servers r) = set (dict_keys ss))) \<and>
         (\<forall>d es ss. files fs p = Some (Json d) \<and> existing_servers_of d = Inr (JObj es) \<and>
               py_get (config sync) ''servers'' (JObj []) = Inr (JObj ss) \<and>
               card (set (dict_keys es)) = card (set (dict_keys ss)) \<longrightarrow>
               app \<notin> app_name ` set reports)"
proof -
  from chk obtain source where src: "py_get (config sync) ''servers'' (JObj []) = Inr source"
    and ct: "check_targets source fs (CONFIG_FILES sync) = Inr reports"
    by (auto simp: check_destructive_operations_def split: sum.splits)
  note rep = reports_of_app [OF ct dist mem]
  have shape: "\<exists>d es ss. files fs p = Some (Json d) \<and> existing_servers_of d = Inr (JObj es) \<and>
      source = JObj ss \<and> card (fst ` set ss) < card (fst ` set es) \<and>
      r = \<lparr>app_name = app, existing_servers = dict_keys es,
           lost_servers = filter (\<lambda>k. k \<notin> fst ` set ss) (dict_keys es),
           remaining_servers = dict_keys ss\<rparr>"
    if "r \<in> set reports" "app_name r = app" for r
  proof -
    from that rep [of r] obtain d es0 where f: "files fs p = Some (Json d)"
      and e: "existing_servers_of d = Inr es0"
      and rr: "removal_report app es0 source = Inr (Some r)" by blast
    from rr obtain em sm where "es0 = JObj em" "source = JObj sm"
      "card (fst ` set sm) < card (fst ` set em)"
      "r = \<lparr>app_name = app, existing_servers = dict_keys em,
           lost_servers = filter (\<lambda>k. k \<notin> fst ` set sm) (dict_keys em),
           remaining_servers = dict_keys sm\<rparr>"
      unfolding removal_report_Some_iff by blast
    with f e show ?thesis by blast
  qed
  have c1a: "\<exists>d es ss. files fs p = Some (Json d) \<and> existing_servers_of d = Inr (JObj es) \<and>
               py_get (config sync) ''servers'' (JObj []) = Inr (JObj ss) \<and> es \<noteq> [] \<and>
               card (set (dict_keys ss)) < card (set (dict_keys es)) \<and>
               set (dict_keys es) - set (dict_keys ss) \<noteq> {}"
    if "app \<in> app_name ` set reports"
  proof -
    from that obtain r where "r \<in> set reports" "app_name r = app" by auto
    from shape [OF this] obtain d es ss where f: "files fs p = Some (Json d)"
      and e: "existing_servers_of d = Inr (JObj es)" and s: "source = JObj ss"
      and c: "card (fst ` set ss) < card (fst ` set es)" by blast
    from more_names_facts [OF c] c
    have "es \<noteq> [] \<and> card (set (dict_keys ss)) < card (set (dict_keys es)) \<and>
          set (dict_keys es) - set (dict_keys ss) \<noteq> {}"
      by simp
    with f e s src show ?thesis by blast
  qed
  have c1b: "app \<in> app_name ` set reports"
    if f: "files fs p = Some (Json d)" and e: "existing_servers_of d = Inr (JObj es)"
      and s: "py_get (config sync) ''servers'' (JObj []) = Inr (JObj ss)"
      and c: "card (set (dict_keys ss)) < card (set (dict_keys es))" for d es ss
  proof -
    let ?r = "\<lparr>app_name = app, existing_servers = dict_keys es,
           lost_servers = filter (\<lambda>k. k \<notin> fst ` set ss) (dict_keys es),
           remaining_servers = dict_keys ss\<rparr>"
    from s src have s': "source = JObj ss" by simp
    from c have "card (fst ` set ss) < card (fst ` set es)" by simp
    then have "removal_report app (JObj es) source = Inr (Some ?r)"
      unfolding removal_report_Some_iff using s' by blast
    with f e have "?r \<in> set reports \<and> app_name ?r = app" unfolding rep by blast
    then have "?r \<in> set reports" "app_name ?r = app" by simp_all
    then show ?thesis by (rule rev_image_eqI [OF _ sym])
  qed
  have c1: "app \<in> app_name ` set reports \<longleftrightarrow>
            (\<exists>d es ss. files fs p = Some (Json d) \<and> existing_servers_of d = Inr (JObj es) \<and>
               py_get (config sync) ''servers'' (JObj []) = Inr (JObj ss) \<and> es \<noteq> [] \<and>
               card (set (dict_keys ss)) < card (set (dict_keys es)) \<and>
               set (dict_keys es) - set (dict_keys ss) \<noteq> {})"
    using c1a c1b by blast
  have c2: "\<forall>r \<in> set reports. app_name r = app \<longrightarrow>
            (\<exists>d es ss. files fs p = Some (Json d) \<and> existing_servers_of d = Inr (JObj es) \<and>
               py_get (config sync) ''servers'' (JObj []) = Inr (JObj ss) \<and>
               set (existing_servers r) = set (dict_keys es) \<and>
               set (lost_servers r) = set (dict_keys es) - set (dict_keys ss) \<and>
               set (remaining_servers r) = set (dict_keys ss))"
  proof (intro ballI impI)
    fix r assume "r \<in> set reports" "app_name r = app"
    from shape [OF this] obtain d es ss where f: "files fs p = Some (Json d)"
      and e: "existing_servers_of d = Inr (JObj es)" and s: "source = JObj ss"
      and r: "r = \<lparr>app_name = app, existing_servers = dict_keys es,
           lost_servers = filter (\<lambda>k. k \<notin> fst ` set ss) (dict_keys es),
           remaining_servers = dict_keys ss\<rparr>" by blast
    from r have "set (existing_servers r) = set (dict_keys es) \<and>
               set (lost_servers r) = set (dict_keys es) - set (dict_keys ss) \<and>
               set (remaining_servers r) = set (dict_keys ss)"
      by auto
    with f e s src show "\<exists>d es ss. files fs p = Some (Json d) \<and>
               existing_servers_of d = Inr (JObj es) \<and>
               py_get (config sync) ''servers'' (JObj []) = Inr (JObj ss) \<and>
               set (existing_servers r) = set (dict_keys es) \<and>
               set (lost_servers r) = set (dict_keys es) - set (dict_keys ss) \<and>
               set (remaining_servers r) = set (dict_keys ss)" by blast
  qed
  have c3: "\<forall>d es ss. files fs p = Some (Json d) \<and> existing_servers_of d = Inr (JObj es) \<and>
               py_get (config sync) ''servers'' (JObj []) = Inr (JObj ss) \<and>
               card (set (dict_keys es)) = card (set (dict_keys ss)) \<longrightarrow>
               app \<notin> app_name ` set reports"
  proof (intro allI impI notI)
    fix d es ss
    assume h: "files fs p = Some (Json d) \<and> existing_servers_of d = Inr (JObj es) \<and>
               py_get (config sync) ''servers'' (JObj []) = Inr (JObj ss) \<and>
               card (set (dict_keys es)) = card (set (dict_keys ss))"
    assume "app \<in> app_name ` set reports"
    from c1a [OF this] obtain d' es' ss' where h': "files fs p = Some (Json d')"
      "existing_servers_of d' = Inr (JObj es')"
      "py_get (config sync) ''servers'' (JObj []) = Inr (JObj ss')"
      "card (set (dict_keys ss')) < card (set (dict_keys es'))"
      by blast
    from h h'(1) have "d' = d" by simp
    with h h'(2) have "es' = es" by simp
    from h h'(3) have "ss' = ss" by simp
    from h h'(4) \<open>es' = es\<close> \<open>ss' = ss\<close> show False by simp
  qed
  from c1 c2 c3 show ?thesis by (intro conjI)
qed

theorem C7_destructive_reports_exact_witness:
  "(\<exists>d es ss. files destructive_fs claude_path = Some (Json d) \<and>
      existing_servers_of d = Inr (JObj es) \<and>
      py_get (config destructive_sync) ''servers'' (JObj []) = Inr (JObj ss) \<and> es \<noteq> [] \<and>
      card (set (dict_keys ss)) < card (set (dict_keys es)) \<and>
      set (dict_keys es) - set (dict_keys ss) \<noteq> {}) \<and>
   ''Windsurf'' \<notin> app_name ` set ([] :: report list)"
proof (rule conjI)
  have chk: "check_destructive_operations destructive_sync destructive_fs =
               Inr [destructive_report]"
    by (simp add: scenario_defs run_defs)
  have dist: "distinct (map fst (CONFIG_FILES destructive_sync))"
    and mem: "(''Claude'', claude_path) \<in> set (CONFIG_FILES destructive_sync)"
    by (simp_all add: scenario_defs)
  have rep: "''Claude'' \<in> app_name ` set [destructive_report]"
    by (simp add: destructive_report_def)
  from C7_destructive_reports_exact [OF chk dist mem, THEN conjunct1, THEN iffD1, OF rep]
  show "\<exists>d es ss. files destructive_fs claude_path = Some (Json d) \<and>
      existing_servers_of d = Inr (JObj es) \<and>
      py_get (config destructive_sync) ''servers'' (JObj []) = Inr (JObj ss) \<and> es \<noteq> [] \<and>
      card (set (dict_keys ss)) < card (set (dict_keys es)) \<and>
      set (dict_keys es) - set (dict_keys ss) \<noteq> {}" .
next
  have chk: "check_destructive_operations stale_sync stale_fs = Inr []"
    by (simp add: scenario_defs run_defs)
  have dist: "distinct (map fst (CONFIG_FILES stale_sync))"
    and mem: "(''Windsurf'', windsurf_path) \<in> set (CONFIG_FILES stale_sync)"
    by (simp_all add: scenario_defs)
  have same: "files stale_fs windsurf_path =
                Some (Json [(''mcpServers'', JObj [(''old'', JObj [])])]) \<and>
              existing_servers_of [(''mcpServers'', JObj [(''old'', JObj [])])] =
                Inr (JObj [(''old'', JObj [])]) \<and>
              py_get (config stale_sync) ''servers'' (JObj []) =
                Inr (JObj [(''new'', JObj [])]) \<and>
              card (set (dict_keys [(''old'', JObj [])])) =
                card (set (dict_keys [(''new'', JObj [])]))"
    by (simp add: scenario_defs run_defs)
  from C7_destructive_reports_exact [OF chk dist mem, THEN conjunct2, THEN conjunct2,
      THEN spec, THEN spec, THEN spec, THEN mp, OF same]
  show "''Windsurf'' \<notin> app_name ` set ([] :: report list)" .
qed

section \<open>Properties of the watcher\<close>

lemma schedule_sync_idle:
  assumes "\<not> is_sync_in_progress w app"
  shows "schedule_sync w app p =
           w\<lparr>started := started w @ [\<lparr>timer_id = length (started w), timer_app = app, timer_path = p\<rparr>],
             pending_syncs := AList.update app \<lparr>timer_id = length (started w), timer_app = app, timer_path = p\<rparr> (pending_syncs w)\<rparr>"
  using assms
  by (auto simp: schedule_sync_def is_sync_in_progress_def has_key_def Let_def split: option.splits)

lemma schedule_sync_pending: "is_sync_in_progress (schedule_sync w app p) app"
  by (simp add: schedule_sync_def is_sync_in_progress_def has_key_def Let_def update_conv'
      split: option.splits)

lemma on_modified_pending:
  assumes "is_sync_in_progress w app"
    and "find_source_app samefile fs (CONFIG_FILES sync) (Path s) = Some app"
  shows "on_modified samefile sync fs w False s = w"
  using assms by (simp add: on_modified_def Let_def)

lemma handle_events_pending:
  assumes "is_sync_in_progress w app"
    and "\<forall>s \<in> set ss. find_source_app samefile fs (CONFIG_FILES sync) (Path s) = Some app"
  shows "handle_events samefile sync fs w ss = w"
  using assms by (induction ss) (simp_all add: on_modified_pending)

text \<open>
  Claim C3, as amended. Take an app with a non-empty name that has no pending sync, and
  a burst of one or more modification events that all resolve to this app, handled
  before any timer fires. The burst starts exactly one timer and cancels none; the
  timer is the one the first event scheduled, with the first event's path; when it
  fires there is exactly one call of \<^verbatim>\<open>sync_from_file\<close>, for this app, and the app is
  idle again. An event for the app that arrives while the timer is pending changes
  nothing: the timer is neither cancelled nor replaced.
\<close>

theorem C3_burst_starts_one_timer:
  assumes ne: "app \<noteq> []" and idle: "\<not> is_sync_in_progress w app"
    and evs: "\<forall>s \<in> set (s0 # rest).
               find_source_app samefile fs (CONFIG_FILES sync) (Path s) = Some app"
  shows "started (handle_events samefile sync fs w (s0 # rest)) =
           started w @ [first_timer w app s0] \<and>
         cancelled (handle_events samefile sync fs w (s0 # rest)) = cancelled w \<and>
         map_of (pending_syncs (handle_events samefile sync fs w (s0 # rest))) app =
           Some (first_timer w app s0) \<and>
         sync_calls (fire_timers (handle_events samefile sync fs w (s0 # rest))
                       [first_timer w app s0]) = sync_calls w @ [app] \<and>
         \<not> is_sync_in_progress
             (fire_timers (handle_events samefile sync fs w (s0 # rest))
                [first_timer w app s0]) app \<and>
         (\<forall>s. find_source_app samefile fs (CONFIG_FILES sync) (Path s) = Some app \<longrightarrow>
              on_modified samefile sync fs (handle_events samefile sync fs w (s0 # rest)) False s =
                handle_events samefile sync fs w (s0 # rest))"
proof -
  let ?t = "first_timer w app s0"
  let ?w1 = "schedule_sync w app (Path s0)"
  from evs have f0: "find_source_app samefile fs (CONFIG_FILES sync) (Path s0) = Some app"
    and fr: "\<forall>s \<in> set rest. find_source_app samefile fs (CONFIG_FILES sync) (Path s) = Some app"
    by simp_all
  have o1: "on_modified samefile sync fs w False s0 = ?w1"
    using f0 ne idle by (simp add: on_modified_def Let_def)
  have p1: "is_sync_in_progress ?w1 app" by (rule schedule_sync_pending)
  have h: "handle_events samefile sync fs w (s0 # rest) = ?w1"
    using o1 handle_events_pending [OF p1 fr] by simp
  have w1: "?w1 = w\<lparr>started := started w @ [?t],
                     pending_syncs := AList.update app ?t (pending_syncs w)\<rparr>"
    using schedule_sync_idle [OF idle] by (simp add: first_timer_def)
  show ?thesis
    unfolding h
  proof (intro conjI allI impI)
    show "started ?w1 = started w @ [?t]" by (simp add: w1)
    show "cancelled ?w1 = cancelled w" by (simp add: w1)
    show "map_of (pending_syncs ?w1) app = Some ?t" by (simp add: w1 update_conv')
    show "sync_calls (fire_timers ?w1 [?t]) = sync_calls w @ [app]"
      by (simp add: w1 execute_sync_def first_timer_def)
    show "\<not> is_sync_in_progress (fire_timers ?w1 [?t]) app"
      by (simp add: execute_sync_def first_timer_def is_sync_in_progress_def has_key_iff
          delete_notin_dom)
    show "on_modified samefile sync fs ?w1 False s = ?w1"
      if "find_source_app samefile fs (CONFIG_FILES sync) (Path s) = Some app" for s
      using on_modified_pending [OF p1 that] .
  qed
qed

theorem C3_burst_starts_one_timer_witness:
  "started (handle_events hard_linked stale_sync linked_fs idle_watcher
              [''windsurf/mcp_config.json'', ''windsurf/link.json'']) =
     started idle_watcher @
       [first_timer idle_watcher ''Windsurf'' ''windsurf/mcp_config.json''] \<and>
   cancelled (handle_events hard_linked stale_sync linked_fs idle_watcher
              [''windsurf/mcp_config.json'', ''windsurf/link.json'']) =
     cancelled idle_watcher"
proof -
  have ne: "''Windsurf'' \<noteq> []" by simp
  have idle: "\<not> is_sync_in_progress idle_watcher ''Windsurf''"
    by (simp add: idle_watcher_def is_sync_in_progress_def)
  have evs: "\<forall>s \<in> set [''windsurf/mcp_config.json'', ''windsurf/link.json''].
               find_source_app hard_linked linked_fs (CONFIG_FILES stale_sync) (Path s) =
                 Some ''Windsurf''"
    by (simp add: scenario_defs Path_def path_exists_def)
  note t = C3_burst_starts_one_timer [OF ne idle evs]
  from t [THEN conjunct1] t [THEN conjunct2, THEN conjunct1] show ?thesis by (rule conjI)
qed

text \<open>
  The claim as stated fails on two events for the Windsurf file, the second through its
  other name: one timer is started, with the path of the first event, and none is
  cancelled; the second event neither cancels it nor starts a timer of its own.
\<close>

theorem C3_second_event_ignored_counterexample:
  "started (handle_events hard_linked stale_sync linked_fs idle_watcher
              [''windsurf/mcp_config.json'', ''windsurf/link.json'']) =
     [\<lparr>timer_id = 0, timer_app = ''Windsurf'', timer_path = windsurf_path\<rparr>] \<and>
   cancelled (handle_events hard_linked stale_sync linked_fs idle_watcher
              [''windsurf/mcp_config.json'', ''windsurf/link.json'']) = [] \<and>
   Path ''windsurf/link.json'' \<noteq> windsurf_path"
  by (simp add: scenario_defs on_modified_def Path_def path_exists_def
      is_sync_in_progress_def schedule_sync_def Let_def)

end
